theory Spec2Isabelle
  imports Main "HOL-Library.Sublist"
begin

section \<open>Strings as the script uses them\<close>

text \<open>
  A JavaScript string is modelled as a \<^typ>\<open>string\<close> whose characters are the code
  units below 256 (ASCII and Latin-1).  The built-in string methods the script calls
  are written out on that range: \<open>trim\<close> removes the white space and line
  terminators of ECMAScript that lie below 256, \<open>toLowerCase\<close> maps \<open>A\<close>-\<open>Z\<close> and
  the Latin-1 capitals, \<open>includes\<close> (here \<open>includesStr\<close>) is substring search,
  \<open>join\<close> and \<open>split\<close> are those of arrays and strings.
\<close>

definition isWhiteSpace :: "char \<Rightarrow> bool" where
  "isWhiteSpace c = ((of_char c :: nat) \<in> set [9, 10, 11, 12, 13, 32, 160])"

definition toLowerChar :: "char \<Rightarrow> char" where
  "toLowerChar c =
     (let n = (of_char c :: nat)
      in if (65 \<le> n \<and> n \<le> 90) \<or> (192 \<le> n \<and> n \<le> 222 \<and> n \<noteq> 215)
         then char_of (n + 32) else c)"

definition toLowerCase :: "string \<Rightarrow> string" where
  "toLowerCase s = map toLowerChar s"

definition trimStart :: "string \<Rightarrow> string" where
  "trimStart s = dropWhile isWhiteSpace s"

definition trimEnd :: "string \<Rightarrow> string" where
  "trimEnd s = rev (dropWhile isWhiteSpace (rev s))"

definition trim :: "string \<Rightarrow> string" where
  "trim s = trimEnd (trimStart s)"

fun includesStr :: "string \<Rightarrow> string \<Rightarrow> bool" where
  "includesStr [] sub = (sub = [])"
| "includesStr (c # cs) sub = (prefix sub (c # cs) \<or> includesStr cs sub)"

fun join :: "string \<Rightarrow> string list \<Rightarrow> string" where
  "join sep [] = []"
| "join sep [x] = x"
| "join sep (x # y # ys) = x @ sep @ join sep (y # ys)"

fun split :: "char \<Rightarrow> string \<Rightarrow> string list" where
  "split d [] = [[]]"
| "split d (c # cs) =
     (if c = d then [] # split d cs
      else (case split d cs of [] \<Rightarrow> [[c]] | p # ps \<Rightarrow> (c # p) # ps))"

definition nl :: string where
  "nl = [CHR 0x0A]"

definition dq :: string where
  "dq = [CHR 0x22]"

text \<open>
  A property read from a parsed JSON object whose value the script uses as text is
  absent (\<open>undefined\<close>), \<open>null\<close> or a string.  \<open>orEmpty\<close> is \<open>value || ""\<close>, \<open>truthy\<close>
  is the test of \<open>if (value)\<close>, and \<open>toText\<close> is what \<open>"..." + value\<close> appends.
\<close>

datatype text_field = Undefined | Null | Str string

fun orEmpty :: "text_field \<Rightarrow> string" where
  "orEmpty (Str s) = s"
| "orEmpty _ = []"

fun truthy :: "text_field \<Rightarrow> bool" where
  "truthy (Str s) = (s \<noteq> [])"
| "truthy _ = False"

fun toText :: "text_field \<Rightarrow> string" where
  "toText Undefined = ''undefined''"
| "toText Null = ''null''"
| "toText (Str s) = s"

section \<open>Job postings and the deduplicator\<close>

text \<open>
  \<open>detected_extensions\<close> is \<open>None\<close> when the property is absent or null, otherwise it
  carries the \<open>posted_at\<close> property of the object.  \<open>apply_options\<close> is \<open>None\<close> when
  absent or null, otherwise the \<open>link\<close> property of each element.
\<close>

record job =
  title :: text_field
  company_name :: text_field
  location :: text_field
  detected_extensions :: "text_field option"
  apply_options :: "text_field list option"

definition normalizeText :: "text_field \<Rightarrow> string" where
  "normalizeText v = toLowerCase (trim (orEmpty v))"

definition jobKey :: "job \<Rightarrow> string" where
  "jobKey j = normalizeText (title j) @ ''|'' @ normalizeText (company_name j)"

text \<open>The loop of \<open>removeDuplicates\<close>, with the set \<open>seen\<close> and the array \<open>output\<close>.\<close>

fun removeDuplicates_loop :: "string set \<Rightarrow> job list \<Rightarrow> job list \<Rightarrow> job list" where
  "removeDuplicates_loop seen output [] = output"
| "removeDuplicates_loop seen output (j # jobs) =
     (let key = jobKey j
      in if key \<notin> seen
         then removeDuplicates_loop (insert key seen) (output @ [j]) jobs
         else removeDuplicates_loop seen output jobs)"

definition removeDuplicates :: "job list \<Rightarrow> job list" where
  "removeDuplicates jobs = removeDuplicates_loop {} [] jobs"

section \<open>The deduplicator on Unicode text\<close>

text \<open>
  A title or a company name may hold any Unicode text, and \<open>trim\<close> and \<open>toLowerCase\<close>
  act on its code points.  For the deduplicator a text is therefore also modelled as
  the list of its code points, on which both methods are written out in full.

  \<open>trim\<close> removes the white space and the line terminators of ECMAScript.
  \<open>toLowerCase\<close> follows the Unicode default case conversion: every code point is
  replaced by its lowercase mapping, except the capital sigma U+03A3, which becomes the
  final sigma U+03C2 when it is preceded by a cased letter (with case-ignorable
  characters in between at most) and not followed by one, and the small sigma U+03C3
  otherwise.  The lowercase mapping below 256 is written out; beyond it the mapping and
  the two properties \<open>Cased\<close> and \<open>Case_Ignorable\<close> are those of the engine's Unicode
  tables, which are a parameter.
\<close>

definition isWhiteSpaceU :: "nat \<Rightarrow> bool" where
  "isWhiteSpaceU u =
     (u \<in> set [9, 10, 11, 12, 13, 32, 160, 0x1680, 0x2028, 0x2029, 0x202F, 0x205F, 0x3000, 0xFEFF]
      \<or> (0x2000 \<le> u \<and> u \<le> 0x200A))"

definition trimStartU :: "nat list \<Rightarrow> nat list" where
  "trimStartU s = dropWhile isWhiteSpaceU s"

definition trimEndU :: "nat list \<Rightarrow> nat list" where
  "trimEndU s = rev (dropWhile isWhiteSpaceU (rev s))"

definition trimU :: "nat list \<Rightarrow> nat list" where
  "trimU s = trimEndU (trimStartU s)"

record unicode_tables =
  lowerOf :: "nat \<Rightarrow> nat list"
  cased :: "nat \<Rightarrow> bool"
  caseIgnorable :: "nat \<Rightarrow> bool"

definition lowerLatin1 :: "nat \<Rightarrow> nat" where
  "lowerLatin1 u =
     (if (65 \<le> u \<and> u \<le> 90) \<or> (192 \<le> u \<and> u \<le> 222 \<and> u \<noteq> 215) then u + 32 else u)"

definition lowerCodePoint :: "unicode_tables \<Rightarrow> nat \<Rightarrow> nat list" where
  "lowerCodePoint ucd u = (if u < 256 then [lowerLatin1 u] else lowerOf ucd u)"

text \<open>
  A cased letter and then case-ignorable characters only: \<open>towardsCased ucd xs\<close> reads
  \<open>xs\<close> away from the sigma, so it is given the text before the sigma in reverse and
  the text after it as it stands.
\<close>

fun towardsCased :: "unicode_tables \<Rightarrow> nat list \<Rightarrow> bool" where
  "towardsCased ucd [] = False"
| "towardsCased ucd (u # us) = (cased ucd u \<or> (caseIgnorable ucd u \<and> towardsCased ucd us))"

fun toLowerCaseFrom :: "unicode_tables \<Rightarrow> nat list \<Rightarrow> nat list \<Rightarrow> nat list" where
  "toLowerCaseFrom ucd seen [] = []"
| "toLowerCaseFrom ucd seen (u # us) =
     (if u = 0x3A3
      then (if towardsCased ucd seen \<and> \<not> towardsCased ucd us then [0x3C2] else [0x3C3])
      else lowerCodePoint ucd u)
     @ toLowerCaseFrom ucd (u # seen) us"

definition toLowerCaseU :: "unicode_tables \<Rightarrow> nat list \<Rightarrow> nat list" where
  "toLowerCaseU ucd s = toLowerCaseFrom ucd [] s"

datatype utext_field = UUndefined | UNull | UStr "nat list"

fun orEmptyU :: "utext_field \<Rightarrow> nat list" where
  "orEmptyU (UStr s) = s"
| "orEmptyU _ = []"

record ujob =
  utitle :: utext_field
  ucompany_name :: utext_field
  ulocation :: utext_field
  udetected_extensions :: "utext_field option"
  uapply_options :: "utext_field list option"

definition normalizeTextU :: "unicode_tables \<Rightarrow> utext_field \<Rightarrow> nat list" where
  "normalizeTextU ucd v = toLowerCaseU ucd (trimU (orEmptyU v))"

text \<open>The separator is the pipe, U+007C.\<close>

definition jobKeyU :: "unicode_tables \<Rightarrow> ujob \<Rightarrow> nat list" where
  "jobKeyU ucd j = normalizeTextU ucd (utitle j) @ [0x7C] @ normalizeTextU ucd (ucompany_name j)"

fun removeDuplicatesU_loop ::
    "unicode_tables \<Rightarrow> nat list set \<Rightarrow> ujob list \<Rightarrow> ujob list \<Rightarrow> ujob list" where
  "removeDuplicatesU_loop ucd seen output [] = output"
| "removeDuplicatesU_loop ucd seen output (j # jobs) =
     (let key = jobKeyU ucd j
      in if key \<notin> seen
         then removeDuplicatesU_loop ucd (insert key seen) (output @ [j]) jobs
         else removeDuplicatesU_loop ucd seen output jobs)"

definition removeDuplicatesU :: "unicode_tables \<Rightarrow> ujob list \<Rightarrow> ujob list" where
  "removeDuplicatesU ucd jobs = removeDuplicatesU_loop ucd {} [] jobs"




definition latin1 :: "nat list \<Rightarrow> bool" where
  "latin1 s = (\<forall>u \<in> set s. u < 256)"

text \<open>
  A text of the first model, whose characters are the code units below 256, as a list of
  code points, and a posting of the first model as a posting with such texts.
\<close>

definition widen :: "string \<Rightarrow> nat list" where
  "widen s = map of_char s"

fun widenField :: "text_field \<Rightarrow> utext_field" where
  "widenField Undefined = UUndefined"
| "widenField Null = UNull"
| "widenField (Str s) = UStr (widen s)"

definition widenJob :: "job \<Rightarrow> ujob" where
  "widenJob j =
     \<lparr>utitle = widenField (title j), ucompany_name = widenField (company_name j),
      ulocation = widenField (location j),
      udetected_extensions = map_option widenField (detected_extensions j),
      uapply_options = map_option (map widenField) (apply_options j)\<rparr>"

section \<open>Freshness classifier\<close>

text \<open>
  The regular expressions of \<open>isPostedToday\<close> all have the shape \<open>/\bword\b/\<close>.
  \<open>\b\<close> holds between two positions when exactly one side is a word character
  (\<open>[A-Za-z0-9_]\<close>); the start and the end of the input count as non-word.
  \<open>matchWordHere w prev s\<close> matches \<open>\bw\b\<close> at the head of \<open>s\<close>, where \<open>prev\<close> is the
  character in front of \<open>s\<close>; \<open>testWord\<close> tries every position, as \<open>RegExp.test\<close> does.
\<close>

definition isWordChar :: "char \<Rightarrow> bool" where
  "isWordChar c =
     (let n = (of_char c :: nat)
      in (48 \<le> n \<and> n \<le> 57) \<or> (65 \<le> n \<and> n \<le> 90) \<or> n = 95 \<or> (97 \<le> n \<and> n \<le> 122))"

fun isWordAt :: "char option \<Rightarrow> bool" where
  "isWordAt None = False"
| "isWordAt (Some c) = isWordChar c"

definition wordBoundary :: "char option \<Rightarrow> char option \<Rightarrow> bool" where
  "wordBoundary prev after = (isWordAt prev \<noteq> isWordAt after)"

fun headOf :: "string \<Rightarrow> char option" where
  "headOf [] = None"
| "headOf (c # cs) = Some c"

definition matchWordHere :: "string \<Rightarrow> char option \<Rightarrow> string \<Rightarrow> bool" where
  "matchWordHere w prev s =
     (wordBoundary prev (headOf s) \<and> prefix w s \<and>
      wordBoundary (case rev w of [] \<Rightarrow> prev | c # _ \<Rightarrow> Some c) (headOf (drop (length w) s)))"

fun testWord :: "string \<Rightarrow> char option \<Rightarrow> string \<Rightarrow> bool" where
  "testWord w prev [] = matchWordHere w prev []"
| "testWord w prev (c # cs) = (matchWordHere w prev (c # cs) \<or> testWord w (Some c) cs)"

definition relativePatterns :: "string list" where
  "relativePatterns =
     [''minute'', ''minutes'', ''min'', ''mins'', ''hour'', ''hours'', ''hr'', ''hrs'', ''today'']"

text \<open>\<open>normalized.replace(/[.,]/g, " ")\<close>\<close>

definition sanitize :: "string \<Rightarrow> string" where
  "sanitize s = map (\<lambda>c. if c = CHR ''.'' \<or> c = CHR '','' then CHR '' '' else c) s"

text \<open>
  What \<open>new Date(...)\<close> makes of a string is left to the engine for everything but
  the ISO format, so the parser is a parameter: \<open>parseDate s\<close> is \<open>None\<close> when
  \<open>new Date(s).getTime()\<close> is \<open>NaN\<close>, and otherwise the year, month and day of the
  parsed instant in the local time zone.  \<open>now\<close> is the local year, month and day
  of \<open>new Date()\<close>.
\<close>

datatype ymd = YMD (getFullYear: int) (getMonth: nat) (getDate: nat)

fun isPostedToday :: "(string \<Rightarrow> ymd option) \<Rightarrow> ymd \<Rightarrow> text_field \<Rightarrow> bool" where
  "isPostedToday parseDate now (Str postedAt) =
     (if postedAt = [] then False
      else
        let normalized = trim (toLowerCase postedAt);
            sanitized = sanitize normalized
        in if includesStr normalized ''just posted'' \<or> includesStr normalized ''just now''
           then True
           else if list_ex (\<lambda>pattern. testWord pattern None sanitized) relativePatterns
           then True
           else (case parseDate postedAt of
                   Some parsedDate \<Rightarrow>
                     getFullYear parsedDate = getFullYear now \<and>
                     getMonth parsedDate = getMonth now \<and>
                     getDate parsedDate = getDate now
                 | None \<Rightarrow> False))"
| "isPostedToday parseDate now _ = False"

section \<open>Report formatter\<close>

text \<open>Decimal rendering of a whole number, as string concatenation does it.\<close>

definition digit :: "nat \<Rightarrow> char" where
  "digit n = ''0123456789'' ! n"

fun showNat :: "nat \<Rightarrow> string" where
  "showNat n = (if n < 10 then [digit n] else showNat (n div 10) @ [digit (n mod 10)])"

declare showNat.simps [simp del]

definition showInt :: "int \<Rightarrow> string" where
  "showInt i = (if i < 0 then ''-'' @ showNat (nat (- i)) else showNat (nat i))"

definition applyUrl :: "job \<Rightarrow> string" where
  "applyUrl j =
     (case apply_options j of
        None \<Rightarrow> ''Apply link unavailable''
      | Some [] \<Rightarrow> ''Apply link unavailable''
      | Some (link # _) \<Rightarrow> if truthy link then toText link else ''Apply link unavailable'')"

definition posted_at :: "job \<Rightarrow> text_field" where
  "posted_at j = (case detected_extensions j of None \<Rightarrow> Undefined | Some p \<Rightarrow> p)"

definition jobBlock :: "job \<Rightarrow> string" where
  "jobBlock j =
     join nl [''Title: '' @ toText (title j),
              ''Company: '' @ toText (company_name j),
              ''Location: '' @ toText (location j),
              ''Posted: '' @ toText (posted_at j),
              ''Apply: '' @ applyUrl j,
              []]"

definition formatRoleSection :: "string \<Rightarrow> job list \<Rightarrow> string" where
  "formatRoleSection roleQuery jobs =
     (if length jobs = 0
      then join nl [''Role: '' @ roleQuery, ''No new postings published today.'']
      else join nl [''Role: '' @ roleQuery, trim (join nl (map jobBlock jobs))])"

text \<open>\<open>details\<close> is \<open>None\<close> for \<open>undefined\<close>; the empty string is falsy as well.\<close>

definition formatQuotaSection :: "string \<Rightarrow> bool \<Rightarrow> string option \<Rightarrow> string" where
  "formatQuotaSection roleQuery isTriggeredRole details =
     (if isTriggeredRole
      then join nl [''Role: '' @ roleQuery,
                    (case details of
                       None \<Rightarrow> ''SerpAPI free tier limit reached while running this search.''
                     | Some d \<Rightarrow> if d = [] then ''SerpAPI free tier limit reached while running this search.'' else d),
                    ''Remaining roles were skipped to avoid extra API calls.'']
      else join nl [''Role: '' @ roleQuery,
                    ''Skipped because the SerpAPI free tier limit was reached earlier today.''])"

section \<open>Errors, HTTP replies and the outside world\<close>

text \<open>
  A thrown \<open>Error\<close> is its \<open>code\<close> property (absent unless the script sets it) and its
  message.  A call of \<open>fetch\<close> either rejects, with an error that has a message and no
  \<open>code\<close>, or resolves to a response, whose body is read as text on the failure paths and
  parsed as JSON on the success path; \<open>Malformed\<close> is a body for which
  \<open>response.json()\<close> rejects, with the message of the rejection.
\<close>

datatype js_error = JsError (code: "string option") (message: string)

definition QUOTA_EXCEEDED_CODE :: string where
  "QUOTA_EXCEEDED_CODE = ''SERP_QUOTA_EXCEEDED''"

definition createQuotaExceededError :: "string \<Rightarrow> js_error" where
  "createQuotaExceededError msg = JsError (Some QUOTA_EXCEEDED_CODE) msg"

definition isQuotaExceededError :: "js_error \<Rightarrow> bool" where
  "isQuotaExceededError e = (code e = Some QUOTA_EXCEEDED_CODE)"

definition isQuotaErrorMessage :: "text_field \<Rightarrow> bool" where
  "isQuotaErrorMessage m =
     (if \<not> truthy m then False
      else let normalized = toLowerCase (toText m)
           in includesStr normalized ''quota'' \<or> includesStr normalized ''limit'' \<or>
              includesStr normalized ''exceeded'')"

datatype 'j parsed = Malformed string | Parsed 'j

datatype 'j http_response =
  HttpResponse (status: nat) (statusText: string) (bodyText: string) (bodyJson: "'j parsed")

datatype 'j fetch_result = Rejected string | Resolved "'j http_response"

definition ok :: "'j http_response \<Rightarrow> bool" where
  "ok r = (200 \<le> status r \<and> status r \<le> 299)"

text \<open>
  The search reply, with the properties the script reads: \<open>error\<close> and \<open>error_code\<close> as
  text, and \<open>jobs_results\<close>, which is \<open>None\<close> when the property is absent or is not an
  array.
\<close>

record search_json =
  error :: text_field
  error_code :: text_field
  jobs_results :: "job list option"

text \<open>
  The account reply.  A credit count is a whole number here, inside the range where
  doubles are exact; \<open>NaN\<close> and the infinities are the values \<open>Number.isFinite\<close>
  rejects.  A property of the account object is absent, \<open>null\<close>, a boolean, a number,
  a string, an array or a plain object.  \<open>Number(...)\<close> is written out: a string goes
  through the engine's \<open>StringToNumber\<close>, which is a parameter, an array goes through
  its \<open>toString\<close>, which joins the elements with commas, and then through
  \<open>StringToNumber\<close>, and a plain object gives \<open>NaN\<close>.
\<close>

datatype jsnumber = Finite int | NaN | PosInfinity | NegInfinity

datatype jsval =
  JUndefined | JNull | JBool bool | JNumber jsnumber | JString string | JArray "jsval list" | JObject

record account_json =
  total_searches_left :: jsval
  plan_searches_left :: jsval
  searches_left :: jsval

text \<open>\<open>a ?? b\<close>\<close>

definition coalesce :: "jsval \<Rightarrow> jsval \<Rightarrow> jsval" where
  "coalesce a b = (if a = JUndefined \<or> a = JNull then b else a)"

fun numberToString :: "jsnumber \<Rightarrow> string" where
  "numberToString (Finite i) = showInt i"
| "numberToString NaN = ''NaN''"
| "numberToString PosInfinity = ''Infinity''"
| "numberToString NegInfinity = ''-Infinity''"

text \<open>
  \<open>String(value)\<close>; in the \<open>join\<close> of an array an element that is \<open>undefined\<close> or
  \<open>null\<close> counts as the empty string.
\<close>

fun toStringJs :: "jsval \<Rightarrow> string" where
  "toStringJs JUndefined = ''undefined''"
| "toStringJs JNull = ''null''"
| "toStringJs (JBool b) = (if b then ''true'' else ''false'')"
| "toStringJs (JNumber n) = numberToString n"
| "toStringJs (JString s) = s"
| "toStringJs (JArray xs) =
     join '','' (map (\<lambda>x. if x = JUndefined \<or> x = JNull then [] else toStringJs x) xs)"
| "toStringJs JObject = ''[object Object]''"

fun Number :: "(string \<Rightarrow> jsnumber) \<Rightarrow> jsval \<Rightarrow> jsnumber" where
  "Number stringToNumber JUndefined = NaN"
| "Number stringToNumber JNull = Finite 0"
| "Number stringToNumber (JBool b) = Finite (if b then 1 else 0)"
| "Number stringToNumber (JNumber n) = n"
| "Number stringToNumber (JString s) = stringToNumber s"
| "Number stringToNumber (JArray xs) = stringToNumber (toStringJs (JArray xs))"
| "Number stringToNumber JObject = NaN"

datatype mail = Mail (sender: string) (recipient: string) (subject: string) (body: string)

text \<open>
  The world a run acts on: the URLs it has fetched and the messages it has handed to
  \<open>resend.emails.send\<close>, both in order.  The environment answers: the reply to the
  account lookup, the reply to the fetch made after \<open>k\<close> earlier fetches, and whether
  the send made after \<open>k\<close> earlier sends throws (\<open>Some\<close> its message).
\<close>

record world =
  requested :: "string list"
  outbox :: "mail list"

record env =
  parseDate :: "string \<Rightarrow> ymd option"
  now :: ymd
  stringToNumber :: "string \<Rightarrow> jsnumber"
  encodeURIComponent :: "string \<Rightarrow> string"
  accountReply :: "account_json fetch_result"
  searchReply :: "nat \<Rightarrow> search_json fetch_result"
  sendThrows :: "nat \<Rightarrow> string option"

section \<open>Notifier and quota tracker\<close>

text \<open>\<open>resend\<close> is the client object, \<open>None\<close> when there is none.\<close>

definition notifySerpFailure ::
    "world \<Rightarrow> string option \<Rightarrow> string \<Rightarrow> string \<Rightarrow> string \<Rightarrow> world" where
  "notifySerpFailure w resend fromAddress toAddress details =
     (if resend = None \<or> fromAddress = [] \<or> toAddress = [] then w
      else w\<lparr>outbox := outbox w @ [Mail fromAddress toAddress ''Daily job fetch failed'' details]\<rparr>)"

definition fetchRemainingSearches ::
    "env \<Rightarrow> world \<Rightarrow> string \<Rightarrow> string option \<Rightarrow> string \<Rightarrow> string \<Rightarrow> (js_error + int) \<times> world" where
  "fetchRemainingSearches e w serpKey resend senderEmailAddress toEmailAddress =
     (let accountUrl = ''https://serpapi.com/account?api_key='' @ serpKey;
          w1 = w\<lparr>requested := requested w @ [accountUrl]\<rparr>
      in case accountReply e of
           Rejected msg \<Rightarrow>
             (Inl (JsError None msg),
              notifySerpFailure w1 resend senderEmailAddress toEmailAddress
                (''SerpAPI account lookup error: '' @ msg))
         | Resolved response \<Rightarrow>
             if \<not> ok response then
               (Inl (JsError None
                  (''SerpAPI account lookup failed with status '' @ showNat (status response))),
                notifySerpFailure w1 resend senderEmailAddress toEmailAddress
                  (''SerpAPI account endpoint responded with status '' @ showNat (status response)
                     @ '': '' @ statusText response @ nl @ bodyText response))
             else
               (case bodyJson response of
                  Malformed msg \<Rightarrow> (Inl (JsError None msg), w1)
                | Parsed json \<Rightarrow>
                    (case Number (stringToNumber e)
                            (coalesce (coalesce (total_searches_left json) (plan_searches_left json))
                               (searches_left json)) of
                       Finite remaining \<Rightarrow> (Inr remaining, w1)
                     | _ \<Rightarrow>
                         (let msg = ''Unable to determine remaining SerpAPI searches from account response.''
                          in (Inl (JsError None msg),
                              notifySerpFailure w1 resend senderEmailAddress toEmailAddress msg)))))"

section \<open>Per-role search\<close>

definition fetchRoleResults ::
    "env \<Rightarrow> world \<Rightarrow> string \<Rightarrow> string \<Rightarrow> string option \<Rightarrow> string \<Rightarrow> string
       \<Rightarrow> (js_error + job list) \<times> world" where
  "fetchRoleResults e w roleQuery serpKey resend senderEmailAddress toEmailAddress =
     (let encodedQuery = encodeURIComponent e roleQuery;
          serpUrl = ''https://serpapi.com/search.json?engine=google_jobs&q='' @ encodedQuery
                      @ ''&api_key='' @ serpKey;
          w1 = w\<lparr>requested := requested w @ [serpUrl]\<rparr>
      in case searchReply e (length (requested w)) of
           Rejected msg \<Rightarrow>
             (Inl (JsError None msg),
              notifySerpFailure w1 resend senderEmailAddress toEmailAddress
                (''SerpAPI request error for '' @ dq @ roleQuery @ dq @ '': '' @ msg))
         | Resolved response \<Rightarrow>
             if status response = 429 then
               (Inl (createQuotaExceededError
                  (''SerpAPI free tier limit reached while fetching '' @ dq @ roleQuery @ dq @ ''.'')),
                w1)
             else if \<not> ok response then
               (Inl (JsError None (''SerpAPI request failed with status '' @ showNat (status response))),
                notifySerpFailure w1 resend senderEmailAddress toEmailAddress
                  (''SerpAPI responded with status '' @ showNat (status response) @ '' for '' @ dq
                     @ roleQuery @ dq @ '': '' @ statusText response @ nl @ bodyText response))
             else
               (case bodyJson response of
                  Malformed msg \<Rightarrow> (Inl (JsError None msg), w1)
                | Parsed json \<Rightarrow>
                    if truthy (error json) then
                      (let errorDetails = ''SerpAPI error for '' @ dq @ roleQuery @ dq @ '': ''
                             @ toText (error json)
                             @ (if truthy (error_code json)
                                then '' ('' @ toText (error_code json) @ '')'' else [])
                       in if isQuotaErrorMessage (error json)
                          then (Inl (createQuotaExceededError errorDetails), w1)
                          else (Inl (JsError None errorDetails),
                                notifySerpFailure w1 resend senderEmailAddress toEmailAddress
                                  errorDetails))
                    else
                      (case jobs_results json of
                         None \<Rightarrow> (Inr [], w1)
                       | Some results \<Rightarrow>
                           (let todayOnly =
                                  filter (\<lambda>j. isPostedToday (parseDate e) (now e) (posted_at j)) results
                            in (Inr (removeDuplicates todayOnly), w1)))))"

section \<open>Query orchestrator\<close>

definition parseRoleQueries :: "string \<Rightarrow> string list" where
  "parseRoleQueries rawRoles =
     (if rawRoles = [] then []
      else filter (\<lambda>role. length role > 0) (map trim (split CHR '','' rawRoles)))"

record loop_state =
  remainingSearches :: int
  sections :: "string list"
  hasAnyPosting :: bool
  quotaTriggered :: bool
  quotaMessageSent :: bool

text \<open>The settings a run reads from the process environment, once they are known to be set.\<close>

record settings =
  serpKey :: string
  resendKey :: string
  senderEmailAddress :: string
  toEmailAddress :: string

text \<open>
  One iteration of the \<open>for\<close> loop of \<open>fetchJobs\<close>.  An error that is not absorbed leaves
  the loop: the result is \<open>Inl\<close> of the error, with the loop variables as they stood.
\<close>

definition roleStep ::
    "env \<Rightarrow> settings \<Rightarrow> int \<Rightarrow> string \<Rightarrow> loop_state \<Rightarrow> world
       \<Rightarrow> (js_error \<times> loop_state + loop_state) \<times> world" where
  "roleStep e cfg totalSearchesLeft role st w =
     (if remainingSearches st \<le> 0 then
        (let isFirstQuotaNotice = \<not> quotaMessageSent st;
             details =
               (if isFirstQuotaNotice
                then Some (if totalSearchesLeft = 0
                           then ''SerpAPI search credits are exhausted for today.''
                           else ''SerpAPI only had '' @ showInt totalSearchesLeft @ '' search''
                                  @ (if totalSearchesLeft = 1 then [] else ''es'')
                                  @ '' available and they were used by earlier roles in this run.'')
                else None)
         in (Inr (st\<lparr>quotaTriggered := True,
                      sections := sections st @ [formatQuotaSection role isFirstQuotaNotice details],
                      quotaMessageSent := True\<rparr>), w))
      else
        (case fetchRoleResults e w role (serpKey cfg) (Some (resendKey cfg))
                (senderEmailAddress cfg) (toEmailAddress cfg) of
           (Inr jobs, w1) \<Rightarrow>
             (Inr (st\<lparr>hasAnyPosting := (if length jobs > 0 then True else hasAnyPosting st),
                      sections := sections st @ [formatRoleSection role jobs],
                      remainingSearches := remainingSearches st - 1\<rparr>), w1)
         | (Inl err, w1) \<Rightarrow>
             if isQuotaExceededError err then
               (Inr (st\<lparr>quotaTriggered := True,
                        sections := sections st @ [formatQuotaSection role True (Some (message err))],
                        quotaMessageSent := True,
                        remainingSearches := 0\<rparr>), w1)
             else (Inl (err, st), w1)))"

fun roleLoop ::
    "env \<Rightarrow> settings \<Rightarrow> int \<Rightarrow> string list \<Rightarrow> loop_state \<Rightarrow> world
       \<Rightarrow> (js_error \<times> loop_state + loop_state) \<times> world" where
  "roleLoop e cfg totalSearchesLeft [] st w = (Inr st, w)"
| "roleLoop e cfg totalSearchesLeft (role # roles) st w =
     (case roleStep e cfg totalSearchesLeft role st w of
        (Inr st', w') \<Rightarrow> roleLoop e cfg totalSearchesLeft roles st' w'
      | (Inl failure, w') \<Rightarrow> (Inl failure, w'))"

definition initialState :: "int \<Rightarrow> loop_state" where
  "initialState totalSearchesLeft =
     \<lparr>remainingSearches = totalSearchesLeft, sections = [], hasAnyPosting = False,
      quotaTriggered = False, quotaMessageSent = False\<rparr>"

text \<open>The part of \<open>fetchJobs\<close> after the loop.\<close>

definition sendReport :: "env \<Rightarrow> settings \<Rightarrow> loop_state \<Rightarrow> world \<Rightarrow> (js_error + unit) \<times> world" where
  "sendReport e cfg st w =
     (if \<not> quotaTriggered st \<and> \<not> hasAnyPosting st then (Inr (), w)
      else
        (let emailBody = join (nl @ nl) (sections st);
             w1 = w\<lparr>outbox := outbox w @
                    [Mail (senderEmailAddress cfg) (toEmailAddress cfg) ''Latest job postings'' emailBody]\<rparr>
         in case sendThrows e (length (outbox w)) of
              Some msg \<Rightarrow> (Inl (JsError None msg), w1)
            | None \<Rightarrow> (Inr (), w1)))"

text \<open>The variables of the process environment: \<open>None\<close> when unset.\<close>

record process_env =
  SERPAPI_KEY :: "string option"
  RESEND_API_KEY :: "string option"
  SENDER_EMAIL_ADDRESS :: "string option"
  TO_EMAIL_ADDRESS :: "string option"
  ROLE_QUERY :: "string option"

definition unset :: "string option \<Rightarrow> bool" where
  "unset v = (v = None \<or> v = Some [])"

definition settingsOf :: "process_env \<Rightarrow> settings" where
  "settingsOf penv =
     \<lparr>serpKey = the (SERPAPI_KEY penv), resendKey = the (RESEND_API_KEY penv),
      senderEmailAddress = the (SENDER_EMAIL_ADDRESS penv),
      toEmailAddress = the (TO_EMAIL_ADDRESS penv)\<rparr>"

definition fetchJobs :: "env \<Rightarrow> process_env \<Rightarrow> world \<Rightarrow> (js_error + unit) \<times> world" where
  "fetchJobs e penv w =
     (if unset (SERPAPI_KEY penv) \<or> unset (RESEND_API_KEY penv) \<or>
         unset (SENDER_EMAIL_ADDRESS penv) \<or> unset (TO_EMAIL_ADDRESS penv)
      then (Inl (JsError None ''One or more environment variables are missing''), w)
      else if unset (ROLE_QUERY penv)
      then (Inl (JsError None
              ''ROLE_QUERY must be set with one or more comma-separated role queries''), w)
      else
        (let cfg = settingsOf penv;
             roleQueries = parseRoleQueries (the (ROLE_QUERY penv))
         in if length roleQueries = 0
            then (Inl (JsError None
                    ''ROLE_QUERY must include at least one non-empty role query''), w)
            else
              (case fetchRemainingSearches e w (serpKey cfg) (Some (resendKey cfg))
                      (senderEmailAddress cfg) (toEmailAddress cfg) of
                 (Inl err, w1) \<Rightarrow> (Inl err, w1)
               | (Inr totalSearchesLeft, w1) \<Rightarrow>
                   (case roleLoop e cfg totalSearchesLeft roleQueries
                           (initialState totalSearchesLeft) w1 of
                      (Inl (err, _), w2) \<Rightarrow> (Inl err, w2)
                    | (Inr st, w2) \<Rightarrow> sendReport e cfg st w2))))"

text \<open>
  Which branch an iteration takes, read off the same tests as \<open>roleStep\<close>: the role is
  skipped, searched with a list of postings as result, absorbed as a quota notice, or
  fatal.
\<close>

datatype branch = Skipped | Searched "job list" | QuotaHit js_error | Fatal js_error

definition branchOf :: "env \<Rightarrow> settings \<Rightarrow> string \<Rightarrow> loop_state \<Rightarrow> world \<Rightarrow> branch" where
  "branchOf e cfg role st w =
     (if remainingSearches st \<le> 0 then Skipped
      else case fst (fetchRoleResults e w role (serpKey cfg) (Some (resendKey cfg))
                       (senderEmailAddress cfg) (toEmailAddress cfg)) of
             Inr jobs \<Rightarrow> Searched jobs
           | Inl err \<Rightarrow> if isQuotaExceededError err then QuotaHit err else Fatal err)"

fun branches ::
    "env \<Rightarrow> settings \<Rightarrow> int \<Rightarrow> string list \<Rightarrow> loop_state \<Rightarrow> world \<Rightarrow> branch list" where
  "branches e cfg totalSearchesLeft [] st w = []"
| "branches e cfg totalSearchesLeft (role # roles) st w =
     branchOf e cfg role st w #
       (case roleStep e cfg totalSearchesLeft role st w of
          (Inr st', w') \<Rightarrow> branches e cfg totalSearchesLeft roles st' w'
        | (Inl failure, w') \<Rightarrow> [])"

fun isFatal :: "branch \<Rightarrow> bool" where
  "isFatal (Fatal err) = True"
| "isFatal _ = False"

text \<open>A quota event: the skip branch or the quota-exceeded branch.\<close>

fun isQuotaEvent :: "branch \<Rightarrow> bool" where
  "isQuotaEvent Skipped = True"
| "isQuotaEvent (QuotaHit err) = True"
| "isQuotaEvent _ = False"

fun foundPostings :: "branch \<Rightarrow> bool" where
  "foundPostings (Searched jobs) = (jobs \<noteq> [])"
| "foundPostings _ = False"

text \<open>
  The four settings and the role list are set and not empty, which is what lets
  \<open>fetchJobs\<close> go past its first two tests.
\<close>

definition configured :: "process_env \<Rightarrow> bool" where
  "configured penv =
     (\<not> unset (SERPAPI_KEY penv) \<and> \<not> unset (RESEND_API_KEY penv) \<and>
      \<not> unset (SENDER_EMAIL_ADDRESS penv) \<and> \<not> unset (TO_EMAIL_ADDRESS penv) \<and>
      \<not> unset (ROLE_QUERY penv))"

text \<open>The URL of the search for a role query.\<close>

definition searchUrl :: "env \<Rightarrow> settings \<Rightarrow> string \<Rightarrow> string" where
  "searchUrl e cfg role =
     ''https://serpapi.com/search.json?engine=google_jobs&q='' @ encodeURIComponent e role
       @ ''&api_key='' @ serpKey cfg"

text \<open>
  A section belongs to a role query when it is the rendering, for that role, of a list
  of postings or of a quota notice.  Every such section starts with the line
  \<open>Role: \<close> followed by the role query.
\<close>

definition sectionFor :: "string \<Rightarrow> string \<Rightarrow> bool" where
  "sectionFor role s =
     ((\<exists>jobs. s = formatRoleSection role jobs) \<or>
      (\<exists>isTriggeredRole details. s = formatQuotaSection role isTriggeredRole details))"

text \<open>
  A field of the account reply is present when it is neither absent nor \<open>null\<close>;
  \<open>firstPresent\<close> is the first present one among \<open>total_searches_left\<close>,
  \<open>plan_searches_left\<close> and \<open>searches_left\<close>, in this order.
\<close>

definition present :: "jsval \<Rightarrow> bool" where
  "present v = (v \<noteq> JUndefined \<and> v \<noteq> JNull)"

definition firstPresent :: "account_json \<Rightarrow> jsval option" where
  "firstPresent json =
     find present [total_searches_left json, plan_searches_left json, searches_left json]"

definition accountUrl :: "string \<Rightarrow> string" where
  "accountUrl key = ''https://serpapi.com/account?api_key='' @ key"


text \<open>The characters of an ISO 8601 timestamp.\<close>

definition isoChar :: "char \<Rightarrow> bool" where
  "isoChar c = (c \<in> set ''0123456789-:.+TZ'')"

section \<open>Sample inputs\<close>

text \<open>A date parser that rejects its input.\<close>

definition invalidDate :: "string \<Rightarrow> ymd option" where
  "invalidDate s = None"



definition posting :: "string \<Rightarrow> string \<Rightarrow> string \<Rightarrow> job" where
  "posting t c l = \<lparr>title = Str t, company_name = Str c, location = Str l,
     detected_extensions = Some (Str ''3 hours ago''), apply_options = None\<rparr>"

definition sampleSettings :: settings where
  "sampleSettings =
     \<lparr>serpKey = ''key'', resendKey = ''re_key'', senderEmailAddress = ''jobs@example.com'',
      toEmailAddress = ''me@example.com''\<rparr>"

definition sampleProcessEnv :: "string \<Rightarrow> process_env" where
  "sampleProcessEnv roles =
     \<lparr>SERPAPI_KEY = Some ''key'', RESEND_API_KEY = Some ''re_key'',
      SENDER_EMAIL_ADDRESS = Some ''jobs@example.com'', TO_EMAIL_ADDRESS = Some ''me@example.com'',
      ROLE_QUERY = Some roles\<rparr>"

definition okReply :: "job list option \<Rightarrow> search_json fetch_result" where
  "okReply results =
     Resolved (HttpResponse 200 ''OK'' []
       (Parsed \<lparr>error = Undefined, error_code = Undefined, jobs_results = results\<rparr>))"

definition errorReply :: "string \<Rightarrow> search_json fetch_result" where
  "errorReply msg =
     Resolved (HttpResponse 200 ''OK'' []
       (Parsed \<lparr>error = Str msg, error_code = Undefined, jobs_results = None\<rparr>))"

definition tooManyRequests :: "search_json fetch_result" where
  "tooManyRequests =
     Resolved (HttpResponse 429 ''Too Many Requests'' [] (Malformed ''Unexpected end of JSON input''))"

definition accountWith :: "jsval \<Rightarrow> jsval \<Rightarrow> jsval \<Rightarrow> account_json fetch_result" where
  "accountWith a b c =
     Resolved (HttpResponse 200 ''OK'' []
       (Parsed \<lparr>total_searches_left = a, plan_searches_left = b, searches_left = c\<rparr>))"

text \<open>
  A sample environment: the account reply and the replies to the fetches are given.
  The date parser and the conversion of strings to numbers reject their input (the
  posted-at texts and the one string field of the samples are neither dates nor
  numerals), \<open>encodeURIComponent\<close> leaves the role queries of the samples as they
  are, and no send throws.
\<close>

definition sampleEnv :: "account_json fetch_result \<Rightarrow> (nat \<Rightarrow> search_json fetch_result) \<Rightarrow> env" where
  "sampleEnv account replies =
     \<lparr>parseDate = (\<lambda>s. None), now = YMD 2025 0 15, stringToNumber = (\<lambda>s. NaN),
      encodeURIComponent = (\<lambda>s. s), accountReply = account, searchReply = replies,
      sendThrows = (\<lambda>k. None)\<rparr>"

definition emptyWorld :: world where
  "emptyWorld = \<lparr>requested = [], outbox = []\<rparr>"

text \<open>Replies by position: the fetch made after \<open>k\<close> earlier fetches gets the \<open>k\<close>-th.\<close>

fun replyAt :: "search_json fetch_result list \<Rightarrow> nat \<Rightarrow> search_json fetch_result" where
  "replyAt [] k = Rejected ''network unreachable''"
| "replyAt (r # rs) 0 = r"
| "replyAt (r # rs) (Suc k) = replyAt rs k"

text \<open>
  A date parser for a process whose local time zone is UTC, on the two timestamps of the
  samples; it rejects every other input.
\<close>

definition sampleParse :: "string \<Rightarrow> ymd option" where
  "sampleParse s =
     (if s = ''2025-01-15T08:30:00Z'' then Some (YMD 2025 0 15)
      else if s = ''2025-01-14T23:59:59Z'' then Some (YMD 2025 0 14)
      else None)"

text \<open>The world after the account lookup of a sample run.\<close>

definition afterLookup :: world where
  "afterLookup = \<lparr>requested = [''https://serpapi.com/account?api_key=key''], outbox = []\<rparr>"

section \<open>Deduplication\<close>















lemma toLowerCaseFrom_latin1:
  "latin1 s \<Longrightarrow> toLowerCaseFrom ucd seen s = map lowerLatin1 s"
  by (induction s arbitrary: seen) (auto simp: latin1_def lowerCodePoint_def)

lemma toLowerCaseU_latin1: "latin1 s \<Longrightarrow> toLowerCaseU ucd s = map lowerLatin1 s"
  by (simp add: toLowerCaseU_def toLowerCaseFrom_latin1)











text \<open>
  On texts of characters below 256 the two models of the deduplicator agree: the one on
  code points, applied to such postings, keeps the postings that the one on characters
  keeps.
\<close>

lemma isWhiteSpaceU_of_char: "isWhiteSpaceU (of_char c) = isWhiteSpace c"
proof -
  define n where "n = (of_char c :: nat)"
  have "n < 256" by (simp add: n_def)
  then show ?thesis
    unfolding isWhiteSpaceU_def isWhiteSpace_def n_def[symmetric] by auto
qed

lemma trimU_widen: "trimU (widen s) = widen (trim s)"
  by (simp add: trimU_def trimStartU_def trimEndU_def trim_def trimStart_def trimEnd_def
      widen_def dropWhile_map o_def isWhiteSpaceU_of_char rev_map)

lemma lowerLatin1_of_char: "lowerLatin1 (of_char c) = of_char (toLowerChar c)"
proof -
  define n where "n = (of_char c :: nat)"
  show ?thesis
    unfolding lowerLatin1_def toLowerChar_def Let_def n_def[symmetric]
    by (auto simp: of_char_of n_def[symmetric])
qed

lemma toLowerCaseU_widen: "toLowerCaseU ucd (widen s) = widen (toLowerCase s)"
proof -
  have "latin1 (widen s)" by (simp add: latin1_def widen_def)
  then show ?thesis
    by (simp add: toLowerCaseU_latin1 widen_def toLowerCase_def lowerLatin1_of_char)
qed

lemma normalizeTextU_widen: "normalizeTextU ucd (widenField v) = widen (normalizeText v)"
  by (cases v) (simp_all add: normalizeTextU_def normalizeText_def trimU_widen toLowerCaseU_widen,
      simp_all add: widen_def toLowerCaseU_def trimU_def trimStartU_def trimEndU_def
        toLowerCase_def trim_def trimStart_def trimEnd_def)

lemma jobKeyU_widen: "jobKeyU ucd (widenJob j) = widen (jobKey j)"
  by (simp add: jobKeyU_def jobKey_def widenJob_def normalizeTextU_widen widen_def)

lemma inj_widen: "inj widen"
  unfolding widen_def by (rule inj_mapI) (simp add: inj_def)

lemma removeDuplicatesU_loop_widen:
  "removeDuplicatesU_loop ucd (widen ` seen) (map widenJob out) (map widenJob js) =
     map widenJob (removeDuplicates_loop seen out js)"
proof (induction js arbitrary: seen out)
  case Nil
  then show ?case by simp
next
  case (Cons j js)
  have mem: "(widen (jobKey j) \<in> widen ` seen) = (jobKey j \<in> seen)"
    using inj_widen by (simp add: inj_image_mem_iff)
  show ?case
    using Cons.IH[of "insert (jobKey j) seen" "out @ [j]"] Cons.IH[of seen out] mem
    by (simp add: jobKeyU_widen Let_def)
qed

lemma removeDuplicatesU_widen:
  "removeDuplicatesU ucd (map widenJob js) = map widenJob (removeDuplicates js)"
  using removeDuplicatesU_loop_widen[of ucd "{}" "[]" js]
  by (simp add: removeDuplicatesU_def removeDuplicates_def)

text \<open>
  C8.  The key joins the two normalized texts with a pipe, and a pipe may occur in them.
  The two postings below differ in normalized title and in normalized company name, and
  \<open>removeDuplicates\<close> drops the second as a duplicate of the first.
\<close>

theorem removeDuplicates_key_collision:
  "removeDuplicates [posting ''a|b'' ''c'' ''x'', posting ''a'' ''b|c'' ''y'']
     = [posting ''a|b'' ''c'' ''x''] \<and>
   normalizeText (title (posting ''a|b'' ''c'' ''x'')) \<noteq> normalizeText (title (posting ''a'' ''b|c'' ''y'')) \<and>
   normalizeText (company_name (posting ''a|b'' ''c'' ''x'')) \<noteq>
     normalizeText (company_name (posting ''a'' ''b|c'' ''y''))"
  by (simp add: removeDuplicates_def jobKey_def normalizeText_def posting_def trim_def
      trimStart_def trimEnd_def toLowerCase_def toLowerChar_def isWhiteSpace_def)

section \<open>The orchestration loop, step by step\<close>

lemma fetchRoleResults_requested:
  "requested (snd (fetchRoleResults e w role k r s t)) = requested w @
     [''https://serpapi.com/search.json?engine=google_jobs&q='' @ encodeURIComponent e role
       @ ''&api_key='' @ k]"
  by (simp add: fetchRoleResults_def Let_def notifySerpFailure_def
      split: fetch_result.splits parsed.splits option.splits)

lemma fetchRoleResults_outbox_ok:
  "fetchRoleResults e w role k r s t = (Inr jobs, w') \<Longrightarrow> outbox w' = outbox w"
  by (auto simp: fetchRoleResults_def Let_def notifySerpFailure_def
      split: fetch_result.splits parsed.splits option.splits if_splits)

lemma fetchRoleResults_outbox_quota:
  "fetchRoleResults e w role k r s t = (Inl err, w') \<Longrightarrow> isQuotaExceededError err \<Longrightarrow>
     outbox w' = outbox w"
  by (auto simp: fetchRoleResults_def Let_def notifySerpFailure_def isQuotaExceededError_def
      createQuotaExceededError_def
      split: fetch_result.splits parsed.splits option.splits if_splits)

lemma roleStep_skip:
  "remainingSearches st \<le> 0 \<Longrightarrow> quotaMessageSent st \<Longrightarrow>
     roleStep e cfg tot role st w =
       (Inr (st\<lparr>quotaTriggered := True,
                sections := sections st @ [formatQuotaSection role False None]\<rparr>), w)"
  by (simp add: roleStep_def)

lemma sectionFor_quota: "sectionFor role (formatQuotaSection role t d)"
  unfolding sectionFor_def by blast

lemma sectionFor_role: "sectionFor role (formatRoleSection role jobs)"
  unfolding sectionFor_def by blast

lemma roleStep_section:
  assumes "roleStep e cfg tot role st w = (Inr st', w')"
  shows "\<exists>s. sections st' = sections st @ [s] \<and> sectionFor role s"
  using assms
  by (auto simp: roleStep_def Let_def sectionFor_quota sectionFor_role
      split: if_splits prod.splits sum.splits)

lemma roleStep_requested:
  assumes "roleStep e cfg tot role st w = (r, w')"
  shows "requested w' = requested w @ (if remainingSearches st \<le> 0 then [] else [searchUrl e cfg role])"
  using assms fetchRoleResults_requested[of e w role "serpKey cfg" "Some (resendKey cfg)"
      "senderEmailAddress cfg" "toEmailAddress cfg"]
  by (auto simp: roleStep_def Let_def searchUrl_def split: if_splits prod.splits sum.splits)

lemma roleStep_outbox:
  assumes "roleStep e cfg tot role st w = (Inr st', w')"
  shows "outbox w' = outbox w"
  using assms
  by (auto simp: roleStep_def Let_def split: if_splits prod.splits sum.splits
      dest: fetchRoleResults_outbox_ok fetchRoleResults_outbox_quota)

lemma roleLoop_append:
  "roleLoop e cfg tot (xs @ ys) st w =
     (case roleLoop e cfg tot xs st w of
        (Inr st', w') \<Rightarrow> roleLoop e cfg tot ys st' w'
      | (Inl failure, w') \<Rightarrow> (Inl failure, w'))"
  by (induction xs arbitrary: st w) (auto split: prod.splits sum.splits)

lemma roleLoop_sections:
  assumes "roleLoop e cfg tot roles st w = (Inr st', w')"
  shows "\<exists>new. sections st' = sections st @ new \<and> length new = length roles \<and>
           (\<forall>i < length roles. sectionFor (roles ! i) (new ! i))"
  using assms
proof (induction roles arbitrary: st w)
  case Nil
  then show ?case by simp
next
  case (Cons role roles)
  from Cons.prems obtain st1 w1 where
    step: "roleStep e cfg tot role st w = (Inr st1, w1)" and
    rest: "roleLoop e cfg tot roles st1 w1 = (Inr st', w')"
    by (auto split: prod.splits sum.splits)
  from roleStep_section[OF step] obtain s where
    s: "sections st1 = sections st @ [s]" "sectionFor role s" by blast
  from Cons.IH[OF rest] obtain new where
    new: "sections st' = sections st1 @ new" "length new = length roles"
      "\<forall>i < length roles. sectionFor (roles ! i) (new ! i)" by blast
  have "sections st' = sections st @ (s # new)" using s new by simp
  moreover have "length (s # new) = length (role # roles)" using new by simp
  moreover have "\<forall>i < length (role # roles). sectionFor ((role # roles) ! i) ((s # new) ! i)"
    using s new by (auto simp: nth_Cons split: nat.splits)
  ultimately show ?case by blast
qed

lemma roleLoop_outbox:
  "roleLoop e cfg tot roles st w = (Inr st', w') \<Longrightarrow> outbox w' = outbox w"
proof (induction roles arbitrary: st w)
  case Nil
  then show ?case by simp
next
  case (Cons role roles)
  from Cons.prems obtain st1 w1 where
    step: "roleStep e cfg tot role st w = (Inr st1, w1)" and
    rest: "roleLoop e cfg tot roles st1 w1 = (Inr st', w')"
    by (auto split: prod.splits sum.splits)
  show ?case using Cons.IH[OF rest] roleStep_outbox[OF step] by simp
qed

lemma roleLoop_skip_rest:
  assumes "remainingSearches st \<le> 0" "quotaMessageSent st" "quotaTriggered st"
  shows "roleLoop e cfg tot rest st w =
           (Inr (st\<lparr>sections := sections st @ map (\<lambda>r. formatQuotaSection r False None) rest\<rparr>), w)"
  using assms
proof (induction rest arbitrary: st)
  case Nil
  then show ?case by simp
next
  case (Cons r rest)
  let ?st1 = "st\<lparr>quotaTriggered := True, sections := sections st @ [formatQuotaSection r False None]\<rparr>"
  have step: "roleStep e cfg tot r st w = (Inr ?st1, w)"
    using Cons.prems by (simp add: roleStep_skip)
  have "roleLoop e cfg tot rest ?st1 w =
          (Inr (?st1\<lparr>sections := sections ?st1 @ map (\<lambda>r. formatQuotaSection r False None) rest\<rparr>), w)"
    by (rule Cons.IH) (use Cons.prems in simp_all)
  then show ?case using step Cons.prems by simp
qed

lemma branches_skip_rest:
  assumes "remainingSearches st \<le> 0" "quotaMessageSent st" "quotaTriggered st"
  shows "branches e cfg tot rest st w = replicate (length rest) Skipped"
  using assms
proof (induction rest arbitrary: st)
  case Nil
  then show ?case by simp
next
  case (Cons r rest)
  let ?st1 = "st\<lparr>quotaTriggered := True, sections := sections st @ [formatQuotaSection r False None]\<rparr>"
  have step: "roleStep e cfg tot r st w = (Inr ?st1, w)"
    using Cons.prems by (simp add: roleStep_skip)
  have "branches e cfg tot rest ?st1 w = replicate (length rest) Skipped"
    by (rule Cons.IH) (use Cons.prems in simp_all)
  then show ?case using step Cons.prems by (simp add: branchOf_def)
qed

lemma fetchJobs_run:
  assumes "configured penv"
    and "parseRoleQueries (the (ROLE_QUERY penv)) = roles" and "roles \<noteq> []"
    and "fetchRemainingSearches e w (serpKey (settingsOf penv)) (Some (resendKey (settingsOf penv)))
           (senderEmailAddress (settingsOf penv)) (toEmailAddress (settingsOf penv)) = (Inr tot, w1)"
  shows "fetchJobs e penv w =
           (case roleLoop e (settingsOf penv) tot roles (initialState tot) w1 of
              (Inl (err, _), w2) \<Rightarrow> (Inl err, w2)
            | (Inr st, w2) \<Rightarrow> sendReport e (settingsOf penv) st w2)"
  using assms by (simp add: fetchJobs_def configured_def Let_def)

section \<open>Evaluating the samples\<close>

lemmas sample_simps = roleStep_def fetchRoleResults_def sampleEnv_def okReply_def
  sampleSettings_def initialState_def emptyWorld_def Let_def ok_def removeDuplicates_def
  showInt_def showNat.simps digit_def tooManyRequests_def createQuotaExceededError_def
  isQuotaExceededError_def QUOTA_EXCEEDED_CODE_def formatRoleSection_def formatQuotaSection_def
  searchUrl_def nl_def dq_def branchOf_def

lemma eq_char_of_iff: "(c = char_of (n::nat)) = (take_bit 8 n = (of_char c :: nat))"
  using char_of_eq_iff[of n c] by auto

lemmas lower_simps = toLowerCase_def toLowerChar_def char_of_eq_iff eq_char_of_iff

lemma sample_configured: "configured (sampleProcessEnv ''A,B,C'')"
  by (simp add: configured_def unset_def sampleProcessEnv_def)

lemma sample_roles:
  "parseRoleQueries (the (ROLE_QUERY (sampleProcessEnv ''A,B,C''))) = [''A'', ''B'', ''C'']"
  by (simp add: parseRoleQueries_def sampleProcessEnv_def trim_def trimStart_def trimEnd_def
      isWhiteSpace_def)

lemma sample_settings: "settingsOf (sampleProcessEnv roles) = sampleSettings"
  by (simp add: settingsOf_def sampleProcessEnv_def sampleSettings_def)

lemma sample_lookup:
  "fetchRemainingSearches (sampleEnv (accountWith (JNumber (Finite n)) JUndefined JUndefined) replies)
     emptyWorld (serpKey sampleSettings) (Some (resendKey sampleSettings))
     (senderEmailAddress sampleSettings) (toEmailAddress sampleSettings) = (Inr n, afterLookup)"
  by (simp add: fetchRemainingSearches_def sampleEnv_def accountWith_def sampleSettings_def
      emptyWorld_def afterLookup_def ok_def coalesce_def)

section \<open>One section per role query\<close>

lemma sectionFor_prefix: "sectionFor role s \<Longrightarrow> prefix (''Role: '' @ role @ nl) s"
  by (auto simp: sectionFor_def formatRoleSection_def formatQuotaSection_def)

lemma roleStep_Inl_iff:
  "(\<exists>failure w'. roleStep e cfg tot role st w = (Inl failure, w')) = isFatal (branchOf e cfg role st w)"
  by (auto simp: roleStep_def branchOf_def Let_def split: prod.splits sum.splits)

lemma roleLoop_completes_iff:
  "(\<exists>st' w'. roleLoop e cfg tot roles st w = (Inr st', w')) =
     (\<forall>b \<in> set (branches e cfg tot roles st w). \<not> isFatal b)"
proof (induction roles arbitrary: st w)
  case Nil
  then show ?case by simp
next
  case (Cons role roles)
  show ?case
  proof (cases "roleStep e cfg tot role st w")
    case (Pair r w1)
    show ?thesis
    proof (cases r)
      case (Inl failure)
      then have "isFatal (branchOf e cfg role st w)"
        using Pair roleStep_Inl_iff[of e cfg tot role st w] by auto
      then show ?thesis using Pair Inl by simp
    next
      case (Inr st1)
      then have "\<not> isFatal (branchOf e cfg role st w)"
        using Pair roleStep_Inl_iff[of e cfg tot role st w] by auto
      then show ?thesis using Pair Inr Cons.IH[of st1 w1] by simp
    qed
  qed
qed

text \<open>
  C1.  The loop completes exactly when no iteration takes the fatal branch, that is when
  every role is searched with success, absorbed as a quota notice, or skipped.  When it
  completes from the initial state, there are as many sections as role queries, and the
  section at each position is a section of the role query at that position: the
  rendering of a result list or of a quota notice for that role, starting with its
  \<open>Role:\<close> line.
\<close>

theorem roleLoop_one_section_per_role:
  "((\<exists>st' w'. roleLoop e cfg tot roles (initialState tot) w = (Inr st', w')) =
      (\<forall>b \<in> set (branches e cfg tot roles (initialState tot) w). \<not> isFatal b)) \<and>
   (\<forall>st' w'. roleLoop e cfg tot roles (initialState tot) w = (Inr st', w') \<longrightarrow>
      length (sections st') = length roles \<and>
      (\<forall>i < length roles.
         sectionFor (roles ! i) (sections st' ! i) \<and>
         prefix (''Role: '' @ roles ! i @ nl) (sections st' ! i)))"
proof (intro conjI allI impI)
  show "(\<exists>st' w'. roleLoop e cfg tot roles (initialState tot) w = (Inr st', w')) =
      (\<forall>b \<in> set (branches e cfg tot roles (initialState tot) w). \<not> isFatal b)"
    by (rule roleLoop_completes_iff)
next
  fix st' w'
  assume run: "roleLoop e cfg tot roles (initialState tot) w = (Inr st', w')"
  from roleLoop_sections[OF run] obtain new where
    new: "sections st' = sections (initialState tot) @ new" "length new = length roles"
      "\<forall>i < length roles. sectionFor (roles ! i) (new ! i)" by blast
  then have eq: "sections st' = new" by (simp add: initialState_def)
  show "length (sections st') = length roles" using eq new by simp
  fix i assume "i < length roles"
  then show "sectionFor (roles ! i) (sections st' ! i)" using eq new by simp
  then show "prefix (''Role: '' @ roles ! i @ nl) (sections st' ! i)"
    by (rule sectionFor_prefix)
qed

theorem roleLoop_one_section_per_role_witness:
  "\<exists>st' w'. roleLoop (sampleEnv (Rejected []) (replyAt [okReply None, tooManyRequests]))
        sampleSettings 2 [''A'', ''B'', ''C''] (initialState 2) emptyWorld = (Inr st', w') \<and>
     length (sections st') = 3 \<and>
     prefix (''Role: B'' @ nl) (sections st' ! 1)"
proof -
  let ?e = "sampleEnv (Rejected []) (replyAt [okReply None, tooManyRequests])"
  have nofatal: "\<forall>b \<in> set (branches ?e sampleSettings 2 [''A'', ''B'', ''C''] (initialState 2) emptyWorld).
          \<not> isFatal b"
    by (simp add: sample_simps)
  from roleLoop_one_section_per_role[of ?e sampleSettings 2 "[''A'', ''B'', ''C'']" emptyWorld]
  have c: "(\<exists>st' w'. roleLoop ?e sampleSettings 2 [''A'', ''B'', ''C''] (initialState 2) emptyWorld = (Inr st', w'))"
    and s: "\<forall>st' w'. roleLoop ?e sampleSettings 2 [''A'', ''B'', ''C''] (initialState 2) emptyWorld = (Inr st', w') \<longrightarrow>
      length (sections st') = length [''A'', ''B'', ''C''] \<and>
      (\<forall>i < length [''A'', ''B'', ''C''].
         sectionFor ([''A'', ''B'', ''C''] ! i) (sections st' ! i) \<and>
         prefix (''Role: '' @ [''A'', ''B'', ''C''] ! i @ nl) (sections st' ! i))"
    using nofatal by blast+
  from c obtain st' w' where
    run: "roleLoop ?e sampleSettings 2 [''A'', ''B'', ''C''] (initialState 2) emptyWorld = (Inr st', w')"
    by blast
  from s run have "length (sections st') = 3 \<and> prefix (''Role: '' @ [''A'', ''B'', ''C''] ! 1 @ nl) (sections st' ! 1)"
    by force
  then show ?thesis using run by auto
qed

section \<open>Two credits, three role queries\<close>

lemma roleStep_searched:
  assumes "0 < remainingSearches st"
    and "fetchRoleResults e w role (serpKey cfg) (Some (resendKey cfg)) (senderEmailAddress cfg)
           (toEmailAddress cfg) = (Inr jobs, w1)"
  shows "roleStep e cfg tot role st w =
           (Inr (st\<lparr>hasAnyPosting := (jobs \<noteq> [] \<or> hasAnyPosting st),
                    sections := sections st @ [formatRoleSection role jobs],
                    remainingSearches := remainingSearches st - 1\<rparr>), w1)"
  using assms by (simp add: roleStep_def)

lemma roleStep_quota:
  assumes "0 < remainingSearches st"
    and "fetchRoleResults e w role (serpKey cfg) (Some (resendKey cfg)) (senderEmailAddress cfg)
           (toEmailAddress cfg) = (Inl err, w1)"
    and "isQuotaExceededError err"
  shows "roleStep e cfg tot role st w =
           (Inr (st\<lparr>quotaTriggered := True,
                    sections := sections st @ [formatQuotaSection role True (Some (message err))],
                    quotaMessageSent := True,
                    remainingSearches := 0\<rparr>), w1)"
  using assms by (simp add: roleStep_def)

lemma roleStep_fatal:
  assumes "0 < remainingSearches st"
    and "fetchRoleResults e w role (serpKey cfg) (Some (resendKey cfg)) (senderEmailAddress cfg)
           (toEmailAddress cfg) = (Inl err, w1)"
    and "\<not> isQuotaExceededError err"
  shows "roleStep e cfg tot role st w = (Inl (err, st), w1)"
  using assms by (simp add: roleStep_def)

lemma roleStep_first_skip:
  assumes "remainingSearches st \<le> 0" "\<not> quotaMessageSent st"
  shows "roleStep e cfg tot role st w =
           (Inr (st\<lparr>quotaTriggered := True,
                    sections := sections st @
                      [formatQuotaSection role True
                         (Some (if tot = 0 then ''SerpAPI search credits are exhausted for today.''
                                else ''SerpAPI only had '' @ showInt tot @ '' search''
                                  @ (if tot = 1 then [] else ''es'')
                                  @ '' available and they were used by earlier roles in this run.''))],
                    quotaMessageSent := True\<rparr>), w)"
  using assms by (simp add: roleStep_def)

lemma fetchRoleResults_429:
  assumes "searchReply e (length (requested w)) = Resolved r" "status r = 429"
  shows "fetchRoleResults e w role k c s t =
           (Inl (createQuotaExceededError
                   (''SerpAPI free tier limit reached while fetching '' @ dq @ role @ dq @ ''.'')),
            w\<lparr>requested := requested w @
                 [''https://serpapi.com/search.json?engine=google_jobs&q='' @ encodeURIComponent e role
                    @ ''&api_key='' @ k]\<rparr>)"
  using assms by (simp add: fetchRoleResults_def)

lemma isQuotaExceededError_create: "isQuotaExceededError (createQuotaExceededError m)"
  by (simp add: isQuotaExceededError_def createQuotaExceededError_def)

lemma message_create: "message (createQuotaExceededError m) = m"
  by (simp add: createQuotaExceededError_def)

text \<open>
  C2, as the code has it.  With two credits and the role queries A, B, C: when the search
  for A succeeds, one credit is left after A; when the search for B succeeds as well, no
  credit is left after B, neither has set a quota flag, and the section of C is the
  notice of the first skip of a run, which is the triggered variant and carries the text
  about the two credits used by earlier roles.  When instead the reply to the search for B
  has status 429, the section of B is the triggered variant with the message about
  fetching B, and the section of C is the plain skip.  In both runs there are three
  sections, for A, B and C in this order.
\<close>

theorem two_credits_three_roles:
  assumes A: "fetchRoleResults e w ''A'' (serpKey cfg) (Some (resendKey cfg))
                (senderEmailAddress cfg) (toEmailAddress cfg) = (Inr jobsA, wA)"
  shows "fst (roleLoop e cfg 2 [''A''] (initialState 2) w) =
           Inr \<lparr>remainingSearches = 1, sections = [formatRoleSection ''A'' jobsA],
                hasAnyPosting = (jobsA \<noteq> []), quotaTriggered = False, quotaMessageSent = False\<rparr> \<and>
        (fetchRoleResults e wA ''B'' (serpKey cfg) (Some (resendKey cfg))
           (senderEmailAddress cfg) (toEmailAddress cfg) = (Inr jobsB, wB) \<longrightarrow>
         fst (roleLoop e cfg 2 [''A'', ''B''] (initialState 2) w) =
           Inr \<lparr>remainingSearches = 0,
                sections = [formatRoleSection ''A'' jobsA, formatRoleSection ''B'' jobsB],
                hasAnyPosting = (jobsB \<noteq> [] \<or> jobsA \<noteq> []), quotaTriggered = False,
                quotaMessageSent = False\<rparr> \<and>
         roleLoop e cfg 2 [''A'', ''B'', ''C''] (initialState 2) w =
           (Inr \<lparr>remainingSearches = 0,
                 sections = [formatRoleSection ''A'' jobsA, formatRoleSection ''B'' jobsB,
                   formatQuotaSection ''C'' True
                     (Some ''SerpAPI only had 2 searches available and they were used by earlier roles in this run.'')],
                 hasAnyPosting = (jobsB \<noteq> [] \<or> jobsA \<noteq> []), quotaTriggered = True,
                 quotaMessageSent = True\<rparr>, wB)) \<and>
        (searchReply e (length (requested wA)) = Resolved rB \<and> status rB = 429 \<longrightarrow>
         roleLoop e cfg 2 [''A'', ''B'', ''C''] (initialState 2) w =
           (Inr \<lparr>remainingSearches = 0,
                 sections = [formatRoleSection ''A'' jobsA,
                   formatQuotaSection ''B'' True
                     (Some (''SerpAPI free tier limit reached while fetching '' @ dq @ ''B'' @ dq @ ''.'')),
                   formatQuotaSection ''C'' False None],
                 hasAnyPosting = (jobsA \<noteq> []), quotaTriggered = True, quotaMessageSent = True\<rparr>,
            wA\<lparr>requested := requested wA @ [searchUrl e cfg ''B'']\<rparr>))"
proof -
  let ?s1 = "\<lparr>remainingSearches = 1, sections = [formatRoleSection ''A'' jobsA],
                hasAnyPosting = (jobsA \<noteq> []), quotaTriggered = False, quotaMessageSent = False\<rparr>"
  have stepA: "roleStep e cfg 2 ''A'' (initialState 2) w = (Inr ?s1, wA)"
    using roleStep_searched[OF _ A, of "initialState 2" 2] by (simp add: initialState_def)
  have one: "fst (roleLoop e cfg 2 [''A''] (initialState 2) w) = Inr ?s1"
    using stepA by simp
  moreover {
    assume B: "fetchRoleResults e wA ''B'' (serpKey cfg) (Some (resendKey cfg))
           (senderEmailAddress cfg) (toEmailAddress cfg) = (Inr jobsB, wB)"
    let ?s2 = "\<lparr>remainingSearches = 0,
                sections = [formatRoleSection ''A'' jobsA, formatRoleSection ''B'' jobsB],
                hasAnyPosting = (jobsB \<noteq> [] \<or> jobsA \<noteq> []), quotaTriggered = False,
                quotaMessageSent = False\<rparr>"
    have stepB: "roleStep e cfg 2 ''B'' ?s1 wA = (Inr ?s2, wB)"
      using roleStep_searched[OF _ B, of ?s1 2] by simp
    have stepC: "roleStep e cfg 2 ''C'' ?s2 wB =
       (Inr \<lparr>remainingSearches = 0,
                 sections = [formatRoleSection ''A'' jobsA, formatRoleSection ''B'' jobsB,
                   formatQuotaSection ''C'' True
                     (Some ''SerpAPI only had 2 searches available and they were used by earlier roles in this run.'')],
                 hasAnyPosting = (jobsB \<noteq> [] \<or> jobsA \<noteq> []), quotaTriggered = True,
                 quotaMessageSent = True\<rparr>, wB)"
      using roleStep_first_skip[of ?s2 e cfg 2 "''C''" wB]
      by (simp add: showInt_def showNat.simps digit_def)
    have "fst (roleLoop e cfg 2 [''A'', ''B''] (initialState 2) w) = Inr ?s2 \<and>
         roleLoop e cfg 2 [''A'', ''B'', ''C''] (initialState 2) w =
           (Inr \<lparr>remainingSearches = 0,
                 sections = [formatRoleSection ''A'' jobsA, formatRoleSection ''B'' jobsB,
                   formatQuotaSection ''C'' True
                     (Some ''SerpAPI only had 2 searches available and they were used by earlier roles in this run.'')],
                 hasAnyPosting = (jobsB \<noteq> [] \<or> jobsA \<noteq> []), quotaTriggered = True,
                 quotaMessageSent = True\<rparr>, wB)"
      using stepA stepB stepC by simp
  }
  moreover {
    assume rs: "searchReply e (length (requested wA)) = Resolved rB \<and> status rB = 429"
    then have r: "searchReply e (length (requested wA)) = Resolved rB" and s: "status rB = 429"
      by simp_all
    let ?wB = "wA\<lparr>requested := requested wA @ [searchUrl e cfg ''B'']\<rparr>"
    let ?err = "createQuotaExceededError
                   (''SerpAPI free tier limit reached while fetching '' @ dq @ ''B'' @ dq @ ''.'')"
    have B: "fetchRoleResults e wA ''B'' (serpKey cfg) (Some (resendKey cfg))
           (senderEmailAddress cfg) (toEmailAddress cfg) = (Inl ?err, ?wB)"
      using fetchRoleResults_429[OF r s] by (simp add: searchUrl_def)
    let ?s2 = "\<lparr>remainingSearches = 0,
                 sections = [formatRoleSection ''A'' jobsA,
                   formatQuotaSection ''B'' True
                     (Some (''SerpAPI free tier limit reached while fetching '' @ dq @ ''B'' @ dq @ ''.''))],
                 hasAnyPosting = (jobsA \<noteq> []), quotaTriggered = True, quotaMessageSent = True\<rparr>"
    have stepB: "roleStep e cfg 2 ''B'' ?s1 wA = (Inr ?s2, ?wB)"
      using roleStep_quota[OF _ B isQuotaExceededError_create, of ?s1 2]
      by (simp add: message_create)
    have stepC: "roleStep e cfg 2 ''C'' ?s2 ?wB =
        (Inr \<lparr>remainingSearches = 0,
                 sections = [formatRoleSection ''A'' jobsA,
                   formatQuotaSection ''B'' True
                     (Some (''SerpAPI free tier limit reached while fetching '' @ dq @ ''B'' @ dq @ ''.'')),
                   formatQuotaSection ''C'' False None],
                 hasAnyPosting = (jobsA \<noteq> []), quotaTriggered = True, quotaMessageSent = True\<rparr>, ?wB)"
      using roleStep_skip[of ?s2 e cfg 2 "''C''" ?wB] by simp
    have "roleLoop e cfg 2 [''A'', ''B'', ''C''] (initialState 2) w =
           (Inr \<lparr>remainingSearches = 0,
                 sections = [formatRoleSection ''A'' jobsA,
                   formatQuotaSection ''B'' True
                     (Some (''SerpAPI free tier limit reached while fetching '' @ dq @ ''B'' @ dq @ ''.'')),
                   formatQuotaSection ''C'' False None],
                 hasAnyPosting = (jobsA \<noteq> []), quotaTriggered = True, quotaMessageSent = True\<rparr>, ?wB)"
      using stepA stepB stepC by simp
  }
  ultimately show ?thesis by blast
qed

theorem two_credits_three_roles_witness:
  "map sections
     [projr (fst (roleLoop (sampleEnv (Rejected []) (replyAt [okReply (Some []), okReply None]))
        sampleSettings 2 [''A'', ''B'', ''C''] (initialState 2) emptyWorld)),
      projr (fst (roleLoop (sampleEnv (Rejected []) (replyAt [okReply (Some []), tooManyRequests]))
        sampleSettings 2 [''A'', ''B'', ''C''] (initialState 2) emptyWorld))] =
   [[formatRoleSection ''A'' [], formatRoleSection ''B'' [],
     formatQuotaSection ''C'' True
       (Some ''SerpAPI only had 2 searches available and they were used by earlier roles in this run.'')],
    [formatRoleSection ''A'' [],
     formatQuotaSection ''B'' True
       (Some (''SerpAPI free tier limit reached while fetching '' @ dq @ ''B'' @ dq @ ''.'')),
     formatQuotaSection ''C'' False None]]"
proof -
  let ?e1 = "sampleEnv (Rejected []) (replyAt [okReply (Some []), okReply None])"
  let ?e2 = "sampleEnv (Rejected []) (replyAt [okReply (Some []), tooManyRequests])"
  let ?wA = "emptyWorld\<lparr>requested := [searchUrl ?e1 sampleSettings ''A'']\<rparr>"
  let ?wB = "emptyWorld\<lparr>requested := [searchUrl ?e1 sampleSettings ''A'', searchUrl ?e1 sampleSettings ''B'']\<rparr>"
  have A1: "fetchRoleResults ?e1 emptyWorld ''A'' (serpKey sampleSettings)
             (Some (resendKey sampleSettings)) (senderEmailAddress sampleSettings)
             (toEmailAddress sampleSettings) = (Inr [], ?wA)"
    by (simp add: sample_simps)
  have B1: "fetchRoleResults ?e1 ?wA ''B'' (serpKey sampleSettings)
             (Some (resendKey sampleSettings)) (senderEmailAddress sampleSettings)
             (toEmailAddress sampleSettings) = (Inr [], ?wB)"
    by (simp add: sample_simps)
  have A2: "fetchRoleResults ?e2 emptyWorld ''A'' (serpKey sampleSettings)
             (Some (resendKey sampleSettings)) (senderEmailAddress sampleSettings)
             (toEmailAddress sampleSettings) = (Inr [], ?wA)"
    by (simp add: sample_simps)
  have B2: "searchReply ?e2 (length (requested ?wA)) = tooManyRequests \<and>
            status (HttpResponse 429 ''Too Many Requests'' [] (Malformed ''Unexpected end of JSON input'' :: search_json parsed)) = 429"
    by (simp add: sample_simps)
  show ?thesis
    using two_credits_three_roles[OF A1, of "[]" ?wB] B1
      two_credits_three_roles[OF A2, of _ _ "HttpResponse 429 ''Too Many Requests'' [] (Malformed ''Unexpected end of JSON input'')"] B2
    by (simp add: tooManyRequests_def)
qed

text \<open>
  The run of C2 with both searches succeeding and finding nothing: the third section is
  not the plain skip.
\<close>

theorem two_credits_three_roles_counterexample:
  "roleLoop (sampleEnv (Rejected []) (replyAt [okReply (Some []), okReply (Some [])]))
     sampleSettings 2 [''A'', ''B'', ''C''] (initialState 2) emptyWorld =
     (Inr \<lparr>remainingSearches = 0,
           sections =
             [''Role: A'' @ nl @ ''No new postings published today.'',
              ''Role: B'' @ nl @ ''No new postings published today.'',
              ''Role: C'' @ nl @
                ''SerpAPI only had 2 searches available and they were used by earlier roles in this run.''
                @ nl @ ''Remaining roles were skipped to avoid extra API calls.''],
           hasAnyPosting = False, quotaTriggered = True, quotaMessageSent = True\<rparr>,
      \<lparr>requested = [''https://serpapi.com/search.json?engine=google_jobs&q=A&api_key=key'',
                    ''https://serpapi.com/search.json?engine=google_jobs&q=B&api_key=key''],
        outbox = []\<rparr>) \<and>
   formatQuotaSection ''C'' False None =
     ''Role: C'' @ nl @ ''Skipped because the SerpAPI free tier limit was reached earlier today.'' \<and>
   ''Role: C'' @ nl @
      ''SerpAPI only had 2 searches available and they were used by earlier roles in this run.''
      @ nl @ ''Remaining roles were skipped to avoid extra API calls.''
     \<noteq> formatQuotaSection ''C'' False None"
  by (simp add: sample_simps)

section \<open>Quota exceeded during a search\<close>

lemma fetchRemainingSearches_outbox_ok:
  "fetchRemainingSearches e w k c s t = (Inr n, w1) \<Longrightarrow> outbox w1 = outbox w"
  by (auto simp: fetchRemainingSearches_def Let_def
      split: fetch_result.splits parsed.splits jsnumber.splits if_splits)

lemma branches_append:
  "branches e cfg tot (xs @ ys) st w =
     branches e cfg tot xs st w @
       (case roleLoop e cfg tot xs st w of
          (Inr st', w') \<Rightarrow> branches e cfg tot ys st' w'
        | (Inl failure, w') \<Rightarrow> [])"
  by (induction xs arbitrary: st w) (auto split: prod.splits sum.splits)

lemma includesStr_nonempty: "includesStr s sub \<Longrightarrow> sub \<noteq> [] \<Longrightarrow> s \<noteq> []"
  by (cases s) auto

lemma fetchRoleResults_quota_payload:
  assumes "searchReply e (length (requested w)) = Resolved r" "ok r"
    and "bodyJson r = Parsed json" and "error json = Str msg"
    and "includesStr (toLowerCase msg) ''quota'' \<or> includesStr (toLowerCase msg) ''limit'' \<or>
         includesStr (toLowerCase msg) ''exceeded''"
  shows "fetchRoleResults e w role k c s t =
           (Inl (createQuotaExceededError
                   (''SerpAPI error for '' @ dq @ role @ dq @ '': '' @ msg
                      @ (if truthy (error_code json) then '' ('' @ toText (error_code json) @ '')''
                         else []))),
            w\<lparr>requested := requested w @
                 [''https://serpapi.com/search.json?engine=google_jobs&q='' @ encodeURIComponent e role
                    @ ''&api_key='' @ k]\<rparr>)"
proof -
  have "toLowerCase msg \<noteq> []"
    using assms(5) includesStr_nonempty by fastforce
  then have ne: "msg \<noteq> []" by (auto simp: toLowerCase_def)
  have not429: "status r \<noteq> 429" using assms(2) by (simp add: ok_def)
  show ?thesis
    using assms ne not429 by (simp add: fetchRoleResults_def isQuotaErrorMessage_def Let_def)
qed

lemma fetchRoleResults_quota_condition:
  assumes "searchReply e (length (requested w)) = Resolved r"
    and "status r = 429 \<or>
         (ok r \<and> bodyJson r = Parsed json \<and> error json = Str msg \<and>
          (includesStr (toLowerCase msg) ''quota'' \<or> includesStr (toLowerCase msg) ''limit'' \<or>
           includesStr (toLowerCase msg) ''exceeded''))"
  shows "\<exists>details. fetchRoleResults e w role k c s t =
           (Inl (createQuotaExceededError details),
            w\<lparr>requested := requested w @
                 [''https://serpapi.com/search.json?engine=google_jobs&q='' @ encodeURIComponent e role
                    @ ''&api_key='' @ k]\<rparr>)"
  using assms fetchRoleResults_429[of e w r role k c s t]
    fetchRoleResults_quota_payload[of e w r json msg role k c s t]
  by blast

text \<open>
  C3.  A run is configured, its role queries are \<open>pre @ role # rest\<close>, the account lookup
  gives \<open>tot\<close> credits, the loop gets through \<open>pre\<close> and still has credit, and the reply to
  the search for \<open>role\<close> is a quota condition: status 429, or a successful response whose
  \<open>error\<close> text contains quota, limit or exceeded in any letter case.  Then the loop does
  not abort: the section of \<open>role\<close> is the triggered variant, the remaining count is 0,
  every later role takes the skip branch and gets the plain skip section, the search for
  \<open>role\<close> is the last fetch of the run, and the run hands exactly one message to the mailer,
  the report with all sections, and returns normally unless that send itself throws.
\<close>

theorem quota_exceeded_is_absorbed:
  assumes cfgd: "configured penv"
    and roles: "parseRoleQueries (the (ROLE_QUERY penv)) = pre @ role # rest"
    and lookup: "fetchRemainingSearches e w (serpKey (settingsOf penv))
                   (Some (resendKey (settingsOf penv))) (senderEmailAddress (settingsOf penv))
                   (toEmailAddress (settingsOf penv)) = (Inr tot, w1)"
    and before: "roleLoop e (settingsOf penv) tot pre (initialState tot) w1 = (Inr st, w2)"
    and credit: "0 < remainingSearches st"
    and reply: "searchReply e (length (requested w2)) = Resolved r"
    and quota: "status r = 429 \<or>
         (ok r \<and> bodyJson r = Parsed json \<and> error json = Str msg \<and>
          (includesStr (toLowerCase msg) ''quota'' \<or> includesStr (toLowerCase msg) ''limit'' \<or>
           includesStr (toLowerCase msg) ''exceeded''))"
  shows "\<exists>details st'.
           roleLoop e (settingsOf penv) tot (pre @ role # rest) (initialState tot) w1 =
             (Inr st', w2\<lparr>requested := requested w2 @ [searchUrl e (settingsOf penv) role]\<rparr>) \<and>
           sections st' = sections st @ formatQuotaSection role True (Some details) #
                            map (\<lambda>r. formatQuotaSection r False None) rest \<and>
           remainingSearches st' = 0 \<and>
           branches e (settingsOf penv) tot (pre @ role # rest) (initialState tot) w1 =
             branches e (settingsOf penv) tot pre (initialState tot) w1 @
               QuotaHit (createQuotaExceededError details) # replicate (length rest) Skipped \<and>
           requested (snd (fetchJobs e penv w)) =
             requested w2 @ [searchUrl e (settingsOf penv) role] \<and>
           outbox (snd (fetchJobs e penv w)) =
             outbox w @ [Mail (senderEmailAddress (settingsOf penv)) (toEmailAddress (settingsOf penv))
                           ''Latest job postings'' (join (nl @ nl) (sections st'))] \<and>
           (sendThrows e (length (outbox w)) = None \<longrightarrow> fst (fetchJobs e penv w) = Inr ())"
proof -
  let ?cfg = "settingsOf penv"
  let ?w3 = "w2\<lparr>requested := requested w2 @ [searchUrl e ?cfg role]\<rparr>"
  from fetchRoleResults_quota_condition[OF reply quota] obtain details where
    f: "fetchRoleResults e w2 role (serpKey ?cfg) (Some (resendKey ?cfg)) (senderEmailAddress ?cfg)
          (toEmailAddress ?cfg) = (Inl (createQuotaExceededError details), ?w3)"
    unfolding searchUrl_def by blast
  let ?st1 = "st\<lparr>quotaTriggered := True,
                 sections := sections st @ [formatQuotaSection role True (Some details)],
                 quotaMessageSent := True, remainingSearches := 0\<rparr>"
  let ?st2 = "?st1\<lparr>sections := sections ?st1 @ map (\<lambda>r. formatQuotaSection r False None) rest\<rparr>"
  have step: "roleStep e ?cfg tot role st w2 = (Inr ?st1, ?w3)"
    using roleStep_quota[OF credit f isQuotaExceededError_create, of tot]
    by (simp add: message_create)
  have rest: "roleLoop e ?cfg tot rest ?st1 ?w3 = (Inr ?st2, ?w3)"
    by (rule roleLoop_skip_rest) simp_all
  have brest: "branches e ?cfg tot rest ?st1 ?w3 = replicate (length rest) Skipped"
    by (rule branches_skip_rest) simp_all
  have bhere: "branchOf e ?cfg role st w2 = QuotaHit (createQuotaExceededError details)"
    using credit f by (simp add: branchOf_def isQuotaExceededError_create)
  have loop: "roleLoop e ?cfg tot (pre @ role # rest) (initialState tot) w1 = (Inr ?st2, ?w3)"
    using before step rest by (simp add: roleLoop_append)
  have br: "branches e ?cfg tot (pre @ role # rest) (initialState tot) w1 =
             branches e ?cfg tot pre (initialState tot) w1 @
               QuotaHit (createQuotaExceededError details) # replicate (length rest) Skipped"
    using before step brest bhere by (simp add: branches_append)
  have run: "fetchJobs e penv w = sendReport e ?cfg ?st2 ?w3"
    using fetchJobs_run[OF cfgd roles _ lookup] loop by simp
  have ob: "outbox ?w3 = outbox w"
    using roleLoop_outbox[OF before] fetchRemainingSearches_outbox_ok[OF lookup] by simp
  have "requested (snd (fetchJobs e penv w)) = requested w2 @ [searchUrl e ?cfg role]"
    unfolding run by (simp add: sendReport_def Let_def split: option.splits)
  moreover have "outbox (snd (fetchJobs e penv w)) =
             outbox w @ [Mail (senderEmailAddress ?cfg) (toEmailAddress ?cfg)
                           ''Latest job postings'' (join (nl @ nl) (sections ?st2))]"
    unfolding run using ob by (simp add: sendReport_def Let_def split: option.splits)
  moreover have "sendThrows e (length (outbox w)) = None \<longrightarrow> fst (fetchJobs e penv w) = Inr ()"
    unfolding run using ob by (simp add: sendReport_def Let_def)
  moreover have "sections ?st2 = sections st @ formatQuotaSection role True (Some details) #
                            map (\<lambda>r. formatQuotaSection r False None) rest"
    by simp
  moreover have "remainingSearches ?st2 = 0" by simp
  ultimately show ?thesis using loop br
    by - (rule exI[of _ details], rule exI[of _ ?st2], simp)
qed

theorem quota_exceeded_is_absorbed_witness:
  "fst (fetchJobs (sampleEnv (accountWith (JNumber (Finite 3)) JUndefined JUndefined)
          (replyAt [Rejected [], okReply None, errorReply ''Your account has run out of searches: monthly LIMIT reached.'',
                    okReply None]))
        (sampleProcessEnv ''A,B,C'') emptyWorld) = Inr () \<and>
   requested (snd (fetchJobs (sampleEnv (accountWith (JNumber (Finite 3)) JUndefined JUndefined)
          (replyAt [Rejected [], okReply None, errorReply ''Your account has run out of searches: monthly LIMIT reached.'',
                    okReply None]))
        (sampleProcessEnv ''A,B,C'') emptyWorld)) =
     [''https://serpapi.com/account?api_key=key'',
      ''https://serpapi.com/search.json?engine=google_jobs&q=A&api_key=key'',
      ''https://serpapi.com/search.json?engine=google_jobs&q=B&api_key=key'']"
proof -
  let ?m = "''Your account has run out of searches: monthly LIMIT reached.''"
  let ?e = "sampleEnv (accountWith (JNumber (Finite 3)) JUndefined JUndefined)
          (replyAt [Rejected [], okReply None, errorReply ?m, okReply None])"
  let ?p = "sampleProcessEnv ''A,B,C''"
  let ?st = "\<lparr>remainingSearches = 2, sections = [formatRoleSection ''A'' []],
              hasAnyPosting = False, quotaTriggered = False, quotaMessageSent = False\<rparr>"
  let ?w2 = "afterLookup\<lparr>requested := requested afterLookup @ [searchUrl ?e sampleSettings ''A'']\<rparr>"
  let ?j = "\<lparr>error = Str ?m, error_code = Undefined, jobs_results = None\<rparr>"
  have roles: "parseRoleQueries (the (ROLE_QUERY ?p)) = [''A''] @ ''B'' # [''C'']"
    by (simp add: sample_roles)
  have lookup: "fetchRemainingSearches ?e emptyWorld (serpKey (settingsOf ?p))
                   (Some (resendKey (settingsOf ?p))) (senderEmailAddress (settingsOf ?p))
                   (toEmailAddress (settingsOf ?p)) = (Inr 3, afterLookup)"
    by (simp add: sample_settings sample_lookup)
  have before: "roleLoop ?e (settingsOf ?p) 3 [''A''] (initialState 3) afterLookup = (Inr ?st, ?w2)"
    by (simp add: sample_settings sample_simps afterLookup_def)
  have reply: "searchReply ?e (length (requested ?w2)) = Resolved (HttpResponse 200 ''OK'' [] (Parsed ?j))"
    by (simp add: sampleEnv_def afterLookup_def errorReply_def)
  have quota: "status (HttpResponse 200 ''OK'' [] (Parsed ?j)) = 429 \<or>
         (ok (HttpResponse 200 ''OK'' [] (Parsed ?j)) \<and>
          bodyJson (HttpResponse 200 ''OK'' [] (Parsed ?j)) = Parsed ?j \<and> error ?j = Str ?m \<and>
          (includesStr (toLowerCase ?m) ''quota'' \<or> includesStr (toLowerCase ?m) ''limit'' \<or>
           includesStr (toLowerCase ?m) ''exceeded''))"
    by (simp add: ok_def lower_simps)
  from quota_exceeded_is_absorbed[OF sample_configured roles lookup before _ reply quota]
  show ?thesis
    by (auto simp: sample_settings sampleEnv_def afterLookup_def searchUrl_def sampleSettings_def
        emptyWorld_def)
qed

section \<open>Other search errors\<close>

lemma fetchRoleResults_fatal_condition:
  assumes kind: "searchReply e (length (requested w)) = Rejected m \<or>
         (searchReply e (length (requested w)) = Resolved r \<and>
          ((status r \<noteq> 429 \<and> \<not> ok r) \<or>
           (ok r \<and> bodyJson r = Parsed json \<and> error json = Str msg \<and> msg \<noteq> [] \<and>
            \<not> (includesStr (toLowerCase msg) ''quota'' \<or> includesStr (toLowerCase msg) ''limit'' \<or>
               includesStr (toLowerCase msg) ''exceeded''))))"
    and addr: "s \<noteq> []" "t \<noteq> []"
  shows "\<exists>err notice. fetchRoleResults e w role k (Some c) s t =
           (Inl err,
            w\<lparr>requested := requested w @
                 [''https://serpapi.com/search.json?engine=google_jobs&q='' @ encodeURIComponent e role
                    @ ''&api_key='' @ k],
              outbox := outbox w @ [Mail s t ''Daily job fetch failed'' notice]\<rparr>) \<and>
           \<not> isQuotaExceededError err"
proof -
  let ?url = "''https://serpapi.com/search.json?engine=google_jobs&q='' @ encodeURIComponent e role
                    @ ''&api_key='' @ k"
  let ?after = "\<lambda>notice. w\<lparr>requested := requested w @ [?url],
              outbox := outbox w @ [Mail s t ''Daily job fetch failed'' notice]\<rparr>"
  have plain: "\<not> isQuotaExceededError (JsError None x)" for x
    by (simp add: isQuotaExceededError_def)
  from kind consider
    (transport) "searchReply e (length (requested w)) = Rejected m"
    | (http) "searchReply e (length (requested w)) = Resolved r" "status r \<noteq> 429" "\<not> ok r"
    | (payload) "searchReply e (length (requested w)) = Resolved r" "ok r" "bodyJson r = Parsed json"
        "error json = Str msg" "msg \<noteq> []"
        "\<not> (includesStr (toLowerCase msg) ''quota'' \<or> includesStr (toLowerCase msg) ''limit'' \<or>
               includesStr (toLowerCase msg) ''exceeded'')"
    by blast
  then show ?thesis
  proof cases
    case transport
    then have "fetchRoleResults e w role k (Some c) s t =
        (Inl (JsError None m),
         ?after (''SerpAPI request error for '' @ dq @ role @ dq @ '': '' @ m))"
      using addr by (simp add: fetchRoleResults_def notifySerpFailure_def)
    then show ?thesis using plain by blast
  next
    case http
    then have "fetchRoleResults e w role k (Some c) s t =
        (Inl (JsError None (''SerpAPI request failed with status '' @ showNat (status r))),
         ?after (''SerpAPI responded with status '' @ showNat (status r) @ '' for '' @ dq
                     @ role @ dq @ '': '' @ statusText r @ nl @ bodyText r))"
      using addr by (simp add: fetchRoleResults_def notifySerpFailure_def)
    then show ?thesis using plain by blast
  next
    case payload
    let ?details = "''SerpAPI error for '' @ dq @ role @ dq @ '': '' @ msg
                      @ (if truthy (error_code json) then '' ('' @ toText (error_code json) @ '')''
                         else [])"
    have "status r \<noteq> 429" using payload(2) by (simp add: ok_def)
    then have "fetchRoleResults e w role k (Some c) s t = (Inl (JsError None ?details), ?after ?details)"
      using payload addr
      by (simp add: fetchRoleResults_def notifySerpFailure_def isQuotaErrorMessage_def Let_def)
    then show ?thesis using plain by blast
  qed
qed

lemma configured_addresses:
  "configured penv \<Longrightarrow>
     senderEmailAddress (settingsOf penv) \<noteq> [] \<and> toEmailAddress (settingsOf penv) \<noteq> []"
  by (auto simp: configured_def unset_def settingsOf_def)

text \<open>
  The three kinds of failure that \<open>fetchRoleResults\<close> reports before it throws.  A run
  is configured, its role queries are \<open>pre @ role # rest\<close>, the account lookup succeeds,
  the loop gets through \<open>pre\<close> and still has credit, and the search for \<open>role\<close> fails
  in one of these ways: the fetch rejects, or the status is neither 2xx nor 429, or a
  successful response carries an \<open>error\<close> text without quota, limit or exceeded.  Then
  \<open>fetchJobs\<close> ends with that error, which is not a quota error; the only message handed
  to the mailer is the failure notice, so no report is sent; the search for \<open>role\<close> is
  the last fetch, so no later role is searched; and the loop leaves with the sections of
  \<open>pre\<close> only.
\<close>

lemma reported_search_error_aborts:
  assumes cfgd: "configured penv"
    and roles: "parseRoleQueries (the (ROLE_QUERY penv)) = pre @ role # rest"
    and lookup: "fetchRemainingSearches e w (serpKey (settingsOf penv))
                   (Some (resendKey (settingsOf penv))) (senderEmailAddress (settingsOf penv))
                   (toEmailAddress (settingsOf penv)) = (Inr tot, w1)"
    and before: "roleLoop e (settingsOf penv) tot pre (initialState tot) w1 = (Inr st, w2)"
    and credit: "0 < remainingSearches st"
    and kind: "searchReply e (length (requested w2)) = Rejected m \<or>
         (searchReply e (length (requested w2)) = Resolved r \<and>
          ((status r \<noteq> 429 \<and> \<not> ok r) \<or>
           (ok r \<and> bodyJson r = Parsed json \<and> error json = Str msg \<and> msg \<noteq> [] \<and>
            \<not> (includesStr (toLowerCase msg) ''quota'' \<or> includesStr (toLowerCase msg) ''limit'' \<or>
               includesStr (toLowerCase msg) ''exceeded''))))"
  shows "\<exists>err notice.
           fst (fetchJobs e penv w) = Inl err \<and> \<not> isQuotaExceededError err \<and>
           outbox (snd (fetchJobs e penv w)) =
             outbox w @ [Mail (senderEmailAddress (settingsOf penv)) (toEmailAddress (settingsOf penv))
                           ''Daily job fetch failed'' notice] \<and>
           requested (snd (fetchJobs e penv w)) =
             requested w2 @ [searchUrl e (settingsOf penv) role] \<and>
           fst (roleLoop e (settingsOf penv) tot (pre @ role # rest) (initialState tot) w1) =
             Inl (err, st) \<and>
           length (sections st) = length pre"
proof -
  let ?cfg = "settingsOf penv"
  from configured_addresses[OF cfgd] have addr:
    "senderEmailAddress ?cfg \<noteq> []" "toEmailAddress ?cfg \<noteq> []" by simp_all
  from fetchRoleResults_fatal_condition[OF kind addr, of role "serpKey ?cfg" "resendKey ?cfg"]
  obtain err notice where
    f: "fetchRoleResults e w2 role (serpKey ?cfg) (Some (resendKey ?cfg)) (senderEmailAddress ?cfg)
          (toEmailAddress ?cfg) =
          (Inl err, w2\<lparr>requested := requested w2 @ [searchUrl e ?cfg role],
                       outbox := outbox w2 @ [Mail (senderEmailAddress ?cfg) (toEmailAddress ?cfg)
                           ''Daily job fetch failed'' notice]\<rparr>)"
    and nq: "\<not> isQuotaExceededError err"
    unfolding searchUrl_def by blast
  let ?w3 = "w2\<lparr>requested := requested w2 @ [searchUrl e ?cfg role],
                       outbox := outbox w2 @ [Mail (senderEmailAddress ?cfg) (toEmailAddress ?cfg)
                           ''Daily job fetch failed'' notice]\<rparr>"
  have step: "roleStep e ?cfg tot role st w2 = (Inl (err, st), ?w3)"
    by (rule roleStep_fatal[OF credit f nq])
  have loop: "roleLoop e ?cfg tot (pre @ role # rest) (initialState tot) w1 = (Inl (err, st), ?w3)"
    using before step by (simp add: roleLoop_append)
  have run: "fetchJobs e penv w = (Inl err, ?w3)"
    using fetchJobs_run[OF cfgd roles _ lookup] loop by simp
  have ob: "outbox w2 = outbox w"
    using roleLoop_outbox[OF before] fetchRemainingSearches_outbox_ok[OF lookup] by simp
  from roleLoop_sections[OF before] have len: "length (sections st) = length pre"
    by (auto simp: initialState_def)
  show ?thesis
    using run loop nq ob len
    by - (rule exI[of _ err], rule exI[of _ notice], simp)
qed

lemma reported_search_error_aborts_sample:
  "fst (fetchJobs (sampleEnv (accountWith (JNumber (Finite 3)) JUndefined JUndefined)
          (replyAt [Rejected [], okReply None, Rejected ''fetch failed'', okReply None]))
        (sampleProcessEnv ''A,B,C'') emptyWorld) \<noteq> Inr () \<and>
   map subject (outbox (snd (fetchJobs (sampleEnv (accountWith (JNumber (Finite 3)) JUndefined JUndefined)
          (replyAt [Rejected [], okReply None, Rejected ''fetch failed'', okReply None]))
        (sampleProcessEnv ''A,B,C'') emptyWorld))) = [''Daily job fetch failed''] \<and>
   requested (snd (fetchJobs (sampleEnv (accountWith (JNumber (Finite 3)) JUndefined JUndefined)
          (replyAt [Rejected [], okReply None, Rejected ''fetch failed'', okReply None]))
        (sampleProcessEnv ''A,B,C'') emptyWorld)) =
     [''https://serpapi.com/account?api_key=key'',
      ''https://serpapi.com/search.json?engine=google_jobs&q=A&api_key=key'',
      ''https://serpapi.com/search.json?engine=google_jobs&q=B&api_key=key'']"
proof -
  let ?e = "sampleEnv (accountWith (JNumber (Finite 3)) JUndefined JUndefined)
          (replyAt [Rejected [], okReply None, Rejected ''fetch failed'', okReply None])"
  let ?p = "sampleProcessEnv ''A,B,C''"
  let ?st = "\<lparr>remainingSearches = 2, sections = [formatRoleSection ''A'' []],
              hasAnyPosting = False, quotaTriggered = False, quotaMessageSent = False\<rparr>"
  let ?w2 = "afterLookup\<lparr>requested := requested afterLookup @ [searchUrl ?e sampleSettings ''A'']\<rparr>"
  have roles: "parseRoleQueries (the (ROLE_QUERY ?p)) = [''A''] @ ''B'' # [''C'']"
    by (simp add: sample_roles)
  have lookup: "fetchRemainingSearches ?e emptyWorld (serpKey (settingsOf ?p))
                   (Some (resendKey (settingsOf ?p))) (senderEmailAddress (settingsOf ?p))
                   (toEmailAddress (settingsOf ?p)) = (Inr 3, afterLookup)"
    by (simp add: sample_settings sample_lookup)
  have before: "roleLoop ?e (settingsOf ?p) 3 [''A''] (initialState 3) afterLookup = (Inr ?st, ?w2)"
    by (simp add: sample_settings sample_simps afterLookup_def)
  have kind: "searchReply ?e (length (requested ?w2)) = Rejected ''fetch failed'' \<or>
         (searchReply ?e (length (requested ?w2)) = Resolved r \<and>
          ((status r \<noteq> 429 \<and> \<not> ok r) \<or>
           (ok r \<and> bodyJson r = Parsed json \<and> error json = Str msg \<and> msg \<noteq> [] \<and>
            \<not> (includesStr (toLowerCase msg) ''quota'' \<or> includesStr (toLowerCase msg) ''limit'' \<or>
               includesStr (toLowerCase msg) ''exceeded''))))" for r json msg
    by (simp add: sampleEnv_def afterLookup_def)
  from reported_search_error_aborts[OF sample_configured roles lookup before _ kind]
  show ?thesis
    by (auto simp: sample_settings sampleEnv_def afterLookup_def searchUrl_def sampleSettings_def
        emptyWorld_def)
qed

lemma fetchRoleResults_malformed:
  assumes "searchReply e (length (requested w)) = Resolved r" "ok r" "bodyJson r = Malformed m"
  shows "fetchRoleResults e w role k c s t =
           (Inl (JsError None m),
            w\<lparr>requested := requested w @
                 [''https://serpapi.com/search.json?engine=google_jobs&q='' @ encodeURIComponent e role
                    @ ''&api_key='' @ k]\<rparr>)"
proof -
  have "status r \<noteq> 429" using assms(2) by (simp add: ok_def)
  then show ?thesis using assms by (simp add: fetchRoleResults_def)
qed

lemma unparseable_search_body_aborts:
  assumes cfgd: "configured penv"
    and roles: "parseRoleQueries (the (ROLE_QUERY penv)) = pre @ role # rest"
    and lookup: "fetchRemainingSearches e w (serpKey (settingsOf penv))
                   (Some (resendKey (settingsOf penv))) (senderEmailAddress (settingsOf penv))
                   (toEmailAddress (settingsOf penv)) = (Inr tot, w1)"
    and before: "roleLoop e (settingsOf penv) tot pre (initialState tot) w1 = (Inr st, w2)"
    and credit: "0 < remainingSearches st"
    and reply: "searchReply e (length (requested w2)) = Resolved r"
    and http: "ok r" and body: "bodyJson r = Malformed m"
  shows "fetchJobs e penv w =
           (Inl (JsError None m),
            w2\<lparr>requested := requested w2 @ [searchUrl e (settingsOf penv) role]\<rparr>) \<and>
         \<not> isQuotaExceededError (JsError None m) \<and>
         branchOf e (settingsOf penv) role st w2 = Fatal (JsError None m) \<and>
         outbox (snd (fetchJobs e penv w)) = outbox w"
proof -
  let ?cfg = "settingsOf penv"
  let ?w3 = "w2\<lparr>requested := requested w2 @ [searchUrl e ?cfg role]\<rparr>"
  have f: "fetchRoleResults e w2 role (serpKey ?cfg) (Some (resendKey ?cfg)) (senderEmailAddress ?cfg)
          (toEmailAddress ?cfg) = (Inl (JsError None m), ?w3)"
    using fetchRoleResults_malformed[OF reply http body] by (simp add: searchUrl_def)
  have nq: "\<not> isQuotaExceededError (JsError None m)"
    by (simp add: isQuotaExceededError_def)
  have step: "roleStep e ?cfg tot role st w2 = (Inl (JsError None m, st), ?w3)"
    by (rule roleStep_fatal[OF credit f nq])
  have loop: "roleLoop e ?cfg tot (pre @ role # rest) (initialState tot) w1 =
                (Inl (JsError None m, st), ?w3)"
    using before step by (simp add: roleLoop_append)
  have run: "fetchJobs e penv w = (Inl (JsError None m), ?w3)"
    using fetchJobs_run[OF cfgd roles _ lookup] loop by simp
  have ob: "outbox w2 = outbox w"
    using roleLoop_outbox[OF before] fetchRemainingSearches_outbox_ok[OF lookup] by simp
  have br: "branchOf e ?cfg role st w2 = Fatal (JsError None m)"
    using credit f nq by (simp add: branchOf_def)
  show ?thesis using run nq ob br by simp
qed

text \<open>
  C4.  Every search error that is not a quota condition should abort the run after a
  failure notice.  The fourth kind of fatal error does not: when a successful response
  has a body that is not JSON, \<open>response.json()\<close> rejects outside the paths that call
  \<open>notifySerpFailure\<close>.  In the run below the reply to the search for B is such a
  response: the run aborts with the parse error, which is not a quota error, no later
  role is searched, no report is sent, and the mailer is handed nothing at all.
\<close>

theorem unparseable_search_body_is_not_reported:
  "fetchJobs (sampleEnv (accountWith (JNumber (Finite 3)) JUndefined JUndefined)
       (replyAt [Rejected [], okReply None,
                 Resolved (HttpResponse 200 ''OK'' ''<html>'' (Malformed ''Unexpected token <'')),
                 okReply None]))
     (sampleProcessEnv ''A,B,C'') emptyWorld =
     (Inl (JsError None ''Unexpected token <''),
      \<lparr>requested = [''https://serpapi.com/account?api_key=key'',
                    ''https://serpapi.com/search.json?engine=google_jobs&q=A&api_key=key'',
                    ''https://serpapi.com/search.json?engine=google_jobs&q=B&api_key=key''],
        outbox = []\<rparr>) \<and>
   \<not> isQuotaExceededError (JsError None ''Unexpected token <'')"
proof -
  let ?r = "HttpResponse 200 ''OK'' ''<html>'' (Malformed ''Unexpected token <'') :: search_json http_response"
  let ?e = "sampleEnv (accountWith (JNumber (Finite 3)) JUndefined JUndefined)
          (replyAt [Rejected [], okReply None, Resolved ?r, okReply None])"
  let ?p = "sampleProcessEnv ''A,B,C''"
  let ?st = "\<lparr>remainingSearches = 2, sections = [formatRoleSection ''A'' []],
              hasAnyPosting = False, quotaTriggered = False, quotaMessageSent = False\<rparr>"
  let ?w2 = "afterLookup\<lparr>requested := requested afterLookup @ [searchUrl ?e sampleSettings ''A'']\<rparr>"
  have roles: "parseRoleQueries (the (ROLE_QUERY ?p)) = [''A''] @ ''B'' # [''C'']"
    by (simp add: sample_roles)
  have lookup: "fetchRemainingSearches ?e emptyWorld (serpKey (settingsOf ?p))
                   (Some (resendKey (settingsOf ?p))) (senderEmailAddress (settingsOf ?p))
                   (toEmailAddress (settingsOf ?p)) = (Inr 3, afterLookup)"
    by (simp add: sample_settings sample_lookup)
  have before: "roleLoop ?e (settingsOf ?p) 3 [''A''] (initialState 3) afterLookup = (Inr ?st, ?w2)"
    by (simp add: sample_settings sample_simps afterLookup_def)
  have reply: "searchReply ?e (length (requested ?w2)) = Resolved ?r"
    by (simp add: sampleEnv_def afterLookup_def)
  have http: "ok ?r" by (simp add: ok_def)
  have body: "bodyJson ?r = Malformed ''Unexpected token <''" by simp
  from unparseable_search_body_aborts[OF sample_configured roles lookup before _ reply http body]
  show ?thesis
    by (simp add: sample_settings sampleEnv_def afterLookup_def searchUrl_def sampleSettings_def
        emptyWorld_def)
qed

section \<open>After the loop\<close>

lemma roleStep_flags:
  assumes "roleStep e cfg tot role st w = (Inr st', w')"
  shows "quotaTriggered st' = (quotaTriggered st \<or> isQuotaEvent (branchOf e cfg role st w))"
    and "hasAnyPosting st' = (hasAnyPosting st \<or> foundPostings (branchOf e cfg role st w))"
  using assms
  by (auto simp: roleStep_def branchOf_def Let_def split: if_splits prod.splits sum.splits)

lemma roleLoop_flags:
  assumes "roleLoop e cfg tot roles st w = (Inr st', w')"
  shows "quotaTriggered st' =
           (quotaTriggered st \<or> (\<exists>b \<in> set (branches e cfg tot roles st w). isQuotaEvent b)) \<and>
         hasAnyPosting st' =
           (hasAnyPosting st \<or> (\<exists>b \<in> set (branches e cfg tot roles st w). foundPostings b))"
  using assms
proof (induction roles arbitrary: st w)
  case Nil
  then show ?case by simp
next
  case (Cons role roles)
  from Cons.prems obtain st1 w1 where
    step: "roleStep e cfg tot role st w = (Inr st1, w1)" and
    rest: "roleLoop e cfg tot roles st1 w1 = (Inr st', w')"
    by (auto split: prod.splits sum.splits)
  show ?case
    using Cons.IH[OF rest] roleStep_flags[OF step] step by auto
qed

text \<open>
  C5.  A run is configured, the account lookup succeeds and the loop completes.  If no
  iteration is a quota event (a skip or an absorbed quota error) and no search finds a
  posting, \<open>fetchJobs\<close> returns normally and hands nothing to the mailer.  Otherwise it
  hands the mailer exactly one message, the report, whose body is the sections joined
  by blank lines (they are in role order by C1), and it makes no further fetch.
\<close>

theorem report_or_silence:
  assumes cfgd: "configured penv"
    and roles: "parseRoleQueries (the (ROLE_QUERY penv)) = roles" "roles \<noteq> []"
    and lookup: "fetchRemainingSearches e w (serpKey (settingsOf penv))
                   (Some (resendKey (settingsOf penv))) (senderEmailAddress (settingsOf penv))
                   (toEmailAddress (settingsOf penv)) = (Inr tot, w1)"
    and loop: "roleLoop e (settingsOf penv) tot roles (initialState tot) w1 = (Inr st, w2)"
  shows "if \<forall>b \<in> set (branches e (settingsOf penv) tot roles (initialState tot) w1).
              \<not> isQuotaEvent b \<and> \<not> foundPostings b
         then fetchJobs e penv w = (Inr (), w2) \<and> outbox w2 = outbox w
         else outbox (snd (fetchJobs e penv w)) =
                outbox w @ [Mail (senderEmailAddress (settingsOf penv)) (toEmailAddress (settingsOf penv))
                              ''Latest job postings'' (join (nl @ nl) (sections st))] \<and>
              requested (snd (fetchJobs e penv w)) = requested w2 \<and>
              (sendThrows e (length (outbox w)) = None \<longrightarrow> fst (fetchJobs e penv w) = Inr ())"
proof -
  let ?cfg = "settingsOf penv"
  have run: "fetchJobs e penv w = sendReport e ?cfg st w2"
    using fetchJobs_run[OF cfgd roles lookup] loop by simp
  have ob: "outbox w2 = outbox w"
    using roleLoop_outbox[OF loop] fetchRemainingSearches_outbox_ok[OF lookup] by simp
  from roleLoop_flags[OF loop] have flags:
    "quotaTriggered st = (\<exists>b \<in> set (branches e ?cfg tot roles (initialState tot) w1). isQuotaEvent b)"
    "hasAnyPosting st = (\<exists>b \<in> set (branches e ?cfg tot roles (initialState tot) w1). foundPostings b)"
    by (simp_all add: initialState_def)
  show ?thesis
  proof (cases "\<forall>b \<in> set (branches e ?cfg tot roles (initialState tot) w1).
              \<not> isQuotaEvent b \<and> \<not> foundPostings b")
    case True
    then have "\<not> quotaTriggered st \<and> \<not> hasAnyPosting st" using flags by blast
    then show ?thesis using True run ob by (simp add: sendReport_def)
  next
    case False
    then have "\<not> (\<not> quotaTriggered st \<and> \<not> hasAnyPosting st)" using flags by blast
    then show ?thesis using False run ob
      by (auto simp: sendReport_def Let_def split: option.splits)
  qed
qed

theorem report_or_silence_witness:
  "fetchJobs (sampleEnv (accountWith (JNumber (Finite 3)) JUndefined JUndefined)
          (replyAt [Rejected [], okReply None, okReply (Some [])]))
        (sampleProcessEnv ''A,B'') emptyWorld =
     (Inr (), \<lparr>requested = [''https://serpapi.com/account?api_key=key'',
        ''https://serpapi.com/search.json?engine=google_jobs&q=A&api_key=key'',
        ''https://serpapi.com/search.json?engine=google_jobs&q=B&api_key=key''], outbox = []\<rparr>) \<and>
   outbox (snd (fetchJobs (sampleEnv (accountWith (JNumber (Finite 3)) JUndefined JUndefined)
          (replyAt [Rejected [], okReply None, okReply (Some [posting ''Staff Engineer'' ''Acme'' ''Remote''])]))
        (sampleProcessEnv ''A,B'') emptyWorld)) =
     [Mail ''jobs@example.com'' ''me@example.com'' ''Latest job postings''
        (join (nl @ nl) [formatRoleSection ''A'' [],
           formatRoleSection ''B'' [posting ''Staff Engineer'' ''Acme'' ''Remote'']])]"
proof -
  let ?e1 = "sampleEnv (accountWith (JNumber (Finite 3)) JUndefined JUndefined)
          (replyAt [Rejected [], okReply None, okReply (Some [])])"
  let ?e2 = "sampleEnv (accountWith (JNumber (Finite 3)) JUndefined JUndefined)
          (replyAt [Rejected [], okReply None, okReply (Some [posting ''Staff Engineer'' ''Acme'' ''Remote''])])"
  let ?p = "sampleProcessEnv ''A,B''"
  let ?w2 = "\<lparr>requested = [''https://serpapi.com/account?api_key=key'',
        ''https://serpapi.com/search.json?engine=google_jobs&q=A&api_key=key'',
        ''https://serpapi.com/search.json?engine=google_jobs&q=B&api_key=key''], outbox = []\<rparr>"
  let ?st1 = "\<lparr>remainingSearches = 1, sections = [formatRoleSection ''A'' [], formatRoleSection ''B'' []],
              hasAnyPosting = False, quotaTriggered = False, quotaMessageSent = False\<rparr>"
  let ?st2 = "\<lparr>remainingSearches = 1, sections = [formatRoleSection ''A'' [],
                 formatRoleSection ''B'' [posting ''Staff Engineer'' ''Acme'' ''Remote'']],
              hasAnyPosting = True, quotaTriggered = False, quotaMessageSent = False\<rparr>"
  have cfgd: "configured ?p"
    by (simp add: configured_def unset_def sampleProcessEnv_def)
  have roles: "parseRoleQueries (the (ROLE_QUERY ?p)) = [''A'', ''B'']" "[''A'', ''B''] \<noteq> []"
    by (simp_all add: parseRoleQueries_def sampleProcessEnv_def trim_def trimStart_def trimEnd_def
      isWhiteSpace_def)
  have lookup1: "fetchRemainingSearches ?e1 emptyWorld (serpKey (settingsOf ?p))
                   (Some (resendKey (settingsOf ?p))) (senderEmailAddress (settingsOf ?p))
                   (toEmailAddress (settingsOf ?p)) = (Inr 3, afterLookup)"
    by (simp add: sample_settings sample_lookup)
  have lookup2: "fetchRemainingSearches ?e2 emptyWorld (serpKey (settingsOf ?p))
                   (Some (resendKey (settingsOf ?p))) (senderEmailAddress (settingsOf ?p))
                   (toEmailAddress (settingsOf ?p)) = (Inr 3, afterLookup)"
    by (simp add: sample_settings sample_lookup)
  have loop1: "roleLoop ?e1 (settingsOf ?p) 3 [''A'', ''B''] (initialState 3) afterLookup = (Inr ?st1, ?w2)"
    by (simp add: sample_settings sample_simps afterLookup_def)
  have today: "isPostedToday (\<lambda>s. None) (YMD 2025 0 15) (Str ''3 hours ago'')"
    by (simp add: lower_simps trim_def trimStart_def trimEnd_def isWhiteSpace_def sanitize_def
        relativePatterns_def matchWordHere_def wordBoundary_def isWordChar_def)
  have loop2: "roleLoop ?e2 (settingsOf ?p) 3 [''A'', ''B''] (initialState 3) afterLookup = (Inr ?st2, ?w2)"
    using today
    by (simp add: sample_settings roleStep_def fetchRoleResults_def sampleEnv_def okReply_def
        sampleSettings_def initialState_def Let_def ok_def removeDuplicates_def afterLookup_def
        posting_def posted_at_def)
  have b1: "\<forall>b \<in> set (branches ?e1 (settingsOf ?p) 3 [''A'', ''B''] (initialState 3) afterLookup).
              \<not> isQuotaEvent b \<and> \<not> foundPostings b"
    by (simp add: sample_settings sample_simps afterLookup_def)
  have b2: "\<not> (\<forall>b \<in> set (branches ?e2 (settingsOf ?p) 3 [''A'', ''B''] (initialState 3) afterLookup).
              \<not> isQuotaEvent b \<and> \<not> foundPostings b)"
    using today
    by (simp add: sample_settings roleStep_def fetchRoleResults_def sampleEnv_def okReply_def
        sampleSettings_def initialState_def Let_def ok_def removeDuplicates_def afterLookup_def
        posting_def posted_at_def branchOf_def)
  have r1: "fetchJobs ?e1 ?p emptyWorld = (Inr (), ?w2)"
    using report_or_silence[OF cfgd roles lookup1 loop1] unfolding if_P[OF b1] by blast
  have r2: "outbox (snd (fetchJobs ?e2 ?p emptyWorld)) =
                outbox emptyWorld @ [Mail (senderEmailAddress (settingsOf ?p)) (toEmailAddress (settingsOf ?p))
                              ''Latest job postings'' (join (nl @ nl) (sections ?st2))]"
    using report_or_silence[OF cfgd roles lookup2 loop2] unfolding if_not_P[OF b2] by blast
  show ?thesis
    using r1 r2 by (simp add: sample_settings sampleSettings_def emptyWorld_def)
qed

section \<open>A reply without a list of postings\<close>

text \<open>
  C10.  The search is attempted, the response is successful, its \<open>error\<close> is absent (or
  otherwise falsy) and \<open>jobs_results\<close> is absent or not an array.  Then
  \<open>fetchRoleResults\<close> returns the empty list, the iteration appends the section with
  \<open>No new postings published today.\<close>, takes one from \<open>remainingSearches\<close> and changes
  nothing else, and it does exactly what it does for the same reply with
  \<open>jobs_results\<close> an empty array.
\<close>

theorem missing_jobs_results_is_empty_result:
  assumes credit: "0 < remainingSearches st"
    and reply: "searchReply e (length (requested w)) = Resolved r"
    and http: "ok r"
    and parsed: "bodyJson r = Parsed json"
    and noerror: "\<not> truthy (error json)"
    and nojobs: "jobs_results json = None"
  shows "fetchRoleResults e w role (serpKey cfg) (Some (resendKey cfg)) (senderEmailAddress cfg)
           (toEmailAddress cfg) =
           (Inr [], w\<lparr>requested := requested w @ [searchUrl e cfg role]\<rparr>) \<and>
         roleStep e cfg tot role st w =
           (Inr (st\<lparr>sections := sections st @
                      [''Role: '' @ role @ nl @ ''No new postings published today.''],
                    remainingSearches := remainingSearches st - 1\<rparr>),
            w\<lparr>requested := requested w @ [searchUrl e cfg role]\<rparr>) \<and>
         roleStep e cfg tot role st w =
           roleStep
             (e\<lparr>searchReply := (searchReply e)
                  (length (requested w) :=
                     Resolved (HttpResponse (status r) (statusText r) (bodyText r)
                                 (Parsed (json\<lparr>jobs_results := Some []\<rparr>))))\<rparr>)
             cfg tot role st w"
proof -
  let ?w1 = "w\<lparr>requested := requested w @ [searchUrl e cfg role]\<rparr>"
  let ?e' = "e\<lparr>searchReply := (searchReply e)
                  (length (requested w) :=
                     Resolved (HttpResponse (status r) (statusText r) (bodyText r)
                                 (Parsed (json\<lparr>jobs_results := Some []\<rparr>))))\<rparr>"
  have not429: "status r \<noteq> 429" using http by (simp add: ok_def)
  have f: "fetchRoleResults e w role (serpKey cfg) (Some (resendKey cfg)) (senderEmailAddress cfg)
           (toEmailAddress cfg) = (Inr [], ?w1)"
    using reply http parsed noerror nojobs not429
    by (simp add: fetchRoleResults_def searchUrl_def)
  have f': "fetchRoleResults ?e' w role (serpKey cfg) (Some (resendKey cfg)) (senderEmailAddress cfg)
           (toEmailAddress cfg) = (Inr [], ?w1)"
    using http noerror not429
    by (simp add: fetchRoleResults_def searchUrl_def ok_def removeDuplicates_def)
  have s: "roleStep e cfg tot role st w =
           (Inr (st\<lparr>sections := sections st @
                      [''Role: '' @ role @ nl @ ''No new postings published today.''],
                    remainingSearches := remainingSearches st - 1\<rparr>), ?w1)"
    using roleStep_searched[OF credit f, of tot] by (simp add: formatRoleSection_def)
  have s': "roleStep ?e' cfg tot role st w =
           (Inr (st\<lparr>sections := sections st @
                      [''Role: '' @ role @ nl @ ''No new postings published today.''],
                    remainingSearches := remainingSearches st - 1\<rparr>), ?w1)"
    using roleStep_searched[OF credit f', of tot] by (simp add: formatRoleSection_def)
  show ?thesis using f s s' by simp
qed

theorem missing_jobs_results_is_empty_result_witness:
  "roleStep (sampleEnv (Rejected []) (replyAt [okReply None])) sampleSettings 5 ''Engineer''
     (initialState 5) emptyWorld =
     (Inr \<lparr>remainingSearches = 4,
           sections = [''Role: Engineer'' @ nl @ ''No new postings published today.''],
           hasAnyPosting = False, quotaTriggered = False, quotaMessageSent = False\<rparr>,
      \<lparr>requested = [''https://serpapi.com/search.json?engine=google_jobs&q=Engineer&api_key=key''],
        outbox = []\<rparr>)"
proof -
  let ?e = "sampleEnv (Rejected []) (replyAt [okReply None])"
  let ?j = "\<lparr>error = Undefined, error_code = Undefined, jobs_results = None\<rparr>"
  let ?r = "HttpResponse 200 ''OK'' [] (Parsed ?j)"
  have credit: "0 < remainingSearches (initialState 5)" by (simp add: initialState_def)
  have reply: "searchReply ?e (length (requested emptyWorld)) = Resolved ?r"
    by (simp add: sampleEnv_def emptyWorld_def okReply_def)
  have http: "ok ?r" by (simp add: ok_def)
  have parsed: "bodyJson ?r = Parsed ?j" by simp
  have noerror: "\<not> truthy (error ?j)" by simp
  have nojobs: "jobs_results ?j = None" by simp
  from missing_jobs_results_is_empty_result[OF credit reply http parsed noerror nojobs,
      of "''Engineer''" sampleSettings 5]
  show ?thesis
    by (simp add: initialState_def emptyWorld_def searchUrl_def sampleEnv_def sampleSettings_def)
qed

section \<open>The quota lookup\<close>



text \<open>
  Two replies with a 2xx status on which the lookup does something else.  When no field
  is present and \<open>searches_left\<close> is \<open>null\<close>, \<open>Number(null)\<close> is 0 and the lookup returns 0.
  When \<open>response.json()\<close> rejects, the lookup fails with that error and hands nothing to
  the mailer.
\<close>

lemma fetchRemainingSearches_null:
  assumes "accountReply e = Resolved r" and "ok r" and "bodyJson r = Parsed json"
    and "firstPresent json = None" and "searches_left json = JNull"
  shows "fetchRemainingSearches e w k c s t =
           (Inr 0, w\<lparr>requested := requested w @ [accountUrl k]\<rparr>)"
proof -
  from assms have "coalesce (coalesce (total_searches_left json) (plan_searches_left json))
               (searches_left json) = JNull"
    by (auto simp: firstPresent_def coalesce_def present_def split: if_splits)
  then show ?thesis using assms
    by (simp add: fetchRemainingSearches_def accountUrl_def Let_def)
qed

lemma fetchRemainingSearches_malformed:
  assumes "accountReply e = Resolved r" and "ok r" and "bodyJson r = Malformed m"
  shows "fetchRemainingSearches e w k c s t =
           (Inl (JsError None m), w\<lparr>requested := requested w @ [accountUrl k]\<rparr>)"
  using assms by (simp add: fetchRemainingSearches_def accountUrl_def Let_def)




section \<open>The freshness classifier\<close>

lemma includesStr_sublist: "includesStr s sub = sublist sub s"
  by (induction s) (simp_all add: sublist_Cons_right)

lemma includesStr_chars: "includesStr s sub \<Longrightarrow> set sub \<subseteq> set s"
  by (auto simp: includesStr_sublist sublist_def)

lemma set_trim: "set (trim s) \<subseteq> set s"
proof
  fix x assume "x \<in> set (trim s)"
  then have "x \<in> set (dropWhile isWhiteSpace (rev (dropWhile isWhiteSpace s)))"
    by (simp add: trim_def trimStart_def trimEnd_def)
  then have "x \<in> set (rev (dropWhile isWhiteSpace s))" by (rule set_dropWhileD)
  then have "x \<in> set (dropWhile isWhiteSpace s)" by simp
  then show "x \<in> set s" by (rule set_dropWhileD)
qed

lemma trimStart_around:
  "m \<noteq> [] \<Longrightarrow> \<not> isWhiteSpace (hd m) \<Longrightarrow> trimStart (a @ m @ b) = trimStart a @ m @ b"
  by (cases m) (auto simp: trimStart_def dropWhile_append)

lemma trimEnd_around:
  "m \<noteq> [] \<Longrightarrow> \<not> isWhiteSpace (last m) \<Longrightarrow> trimEnd (a @ m @ b) = a @ m @ trimEnd b"
  by (cases m rule: rev_cases) (auto simp: trimEnd_def dropWhile_append)

lemma trim_around:
  assumes "m \<noteq> []" "\<not> isWhiteSpace (hd m)" "\<not> isWhiteSpace (last m)"
  shows "trim (a @ m @ b) = trimStart a @ m @ trimEnd b"
  using assms by (simp add: trim_def trimStart_around trimEnd_around)

lemma matchWordHere_chars: "matchWordHere w prev s \<Longrightarrow> set w \<subseteq> set s"
  by (auto simp: matchWordHere_def prefix_def)

lemma testWord_chars: "testWord w prev s \<Longrightarrow> set w \<subseteq> set s"
proof (induction s arbitrary: prev)
  case Nil
  then have "matchWordHere w prev []" by simp
  then show ?case by (rule matchWordHere_chars)
next
  case (Cons c cs)
  from Cons.prems have "matchWordHere w prev (c # cs) \<or> testWord w (Some c) cs" by simp
  then show ?case
  proof
    assume "matchWordHere w prev (c # cs)"
    then show ?thesis by (rule matchWordHere_chars)
  next
    assume "testWord w (Some c) cs"
    then have "set w \<subseteq> set cs" by (rule Cons.IH)
    then show ?thesis by auto
  qed
qed

lemma testWord_intro:
  "matchWordHere w (if a = [] then prev else Some (last a)) (w @ b) \<Longrightarrow> testWord w prev (a @ w @ b)"
proof (induction a arbitrary: prev)
  case Nil
  then show ?case by (cases "w @ b") auto
next
  case (Cons c a)
  have "testWord w (Some c) (a @ w @ b)"
    by (rule Cons.IH) (use Cons.prems in \<open>auto split: if_splits\<close>)
  then show ?case by simp
qed

lemma isWordChar_toLowerChar: "isWordChar (toLowerChar c) = isWordChar c"
proof -
  define n where "n = (of_char c :: nat)"
  show ?thesis
    unfolding isWordChar_def toLowerChar_def Let_def n_def[symmetric]
    by (auto simp: of_char_of n_def[symmetric])
qed

lemma isWordChar_sanitized:
  "\<not> isWordChar c \<Longrightarrow> \<not> isWordChar (if c = CHR ''.'' \<or> c = CHR '','' then CHR '' '' else c)"
  by (simp add: isWordChar_def)

lemma last_trimStart: "trimStart s \<noteq> [] \<Longrightarrow> last (trimStart s) = last s"
  unfolding trimStart_def
  by (metis append_Nil2 last_appendR takeWhile_dropWhile_id)

lemma hd_trimEnd: "trimEnd s \<noteq> [] \<Longrightarrow> hd (trimEnd s) = hd s"
proof -
  assume ne: "trimEnd s \<noteq> []"
  have "s = trimEnd s @ rev (takeWhile isWhiteSpace (rev s))"
    unfolding trimEnd_def
    by (metis rev_append rev_rev_ident takeWhile_dropWhile_id)
  then show ?thesis using ne by (metis hd_append2)
qed

lemma patterns_shape:
  assumes "p \<in> set relativePatterns"
  shows "p \<noteq> [] \<and> \<not> isWhiteSpace (hd p) \<and> \<not> isWhiteSpace (last p) \<and>
         isWordChar (hd p) \<and> isWordChar (last p) \<and> sanitize p = p"
  using assms
  by (auto simp: relativePatterns_def isWhiteSpace_def isWordChar_def sanitize_def)

lemma relative_word_matches:
  assumes p: "p \<in> set relativePatterns" and w: "toLowerCase w = p"
    and pre: "pre = [] \<or> \<not> isWordChar (last pre)"
    and post: "post = [] \<or> \<not> isWordChar (hd post)"
  shows "testWord p None (sanitize (trim (toLowerCase (pre @ w @ post))))"
proof -
  note sh = patterns_shape[OF p]
  let ?a = "sanitize (trimStart (toLowerCase pre))"
  let ?b = "sanitize (trimEnd (toLowerCase post))"
  have "toLowerCase (pre @ w @ post) = toLowerCase pre @ p @ toLowerCase post"
    using w by (simp add: toLowerCase_def)
  then have "trim (toLowerCase (pre @ w @ post)) =
               trimStart (toLowerCase pre) @ p @ trimEnd (toLowerCase post)"
    using sh by (simp add: trim_around)
  then have san: "sanitize (trim (toLowerCase (pre @ w @ post))) = ?a @ p @ ?b"
    using sh by (simp add: sanitize_def)
  have a: "?a = [] \<or> \<not> isWordChar (last ?a)"
  proof (cases "?a = []")
    case False
    then have ne: "trimStart (toLowerCase pre) \<noteq> []" by (auto simp: sanitize_def)
    then have "pre \<noteq> []" by (auto simp: trimStart_def toLowerCase_def)
    then have nw: "\<not> isWordChar (last pre)" using pre by simp
    have "last (trimStart (toLowerCase pre)) = toLowerChar (last pre)"
      using ne \<open>pre \<noteq> []\<close> by (simp add: last_trimStart toLowerCase_def last_map)
    then have "last ?a = (\<lambda>c. if c = CHR ''.'' \<or> c = CHR '','' then CHR '' '' else c)
                           (toLowerChar (last pre))"
      using ne by (simp add: sanitize_def last_map)
    then show ?thesis
      using nw isWordChar_sanitized[of "toLowerChar (last pre)"]
      by (simp add: isWordChar_toLowerChar)
  qed simp
  have b: "?b = [] \<or> \<not> isWordChar (hd ?b)"
  proof (cases "?b = []")
    case False
    then have ne: "trimEnd (toLowerCase post) \<noteq> []" by (auto simp: sanitize_def)
    then have "post \<noteq> []" by (auto simp: trimEnd_def toLowerCase_def)
    then have nw: "\<not> isWordChar (hd post)" using post by simp
    have "hd (trimEnd (toLowerCase post)) = toLowerChar (hd post)"
      using ne \<open>post \<noteq> []\<close> by (simp add: hd_trimEnd toLowerCase_def hd_map)
    then have "hd ?b = (\<lambda>c. if c = CHR ''.'' \<or> c = CHR '','' then CHR '' '' else c)
                           (toLowerChar (hd post))"
      using ne by (simp add: sanitize_def hd_map)
    then show ?thesis
      using nw isWordChar_sanitized[of "toLowerChar (hd post)"]
      by (simp add: isWordChar_toLowerChar)
  qed simp
  have revp: "(case rev p of [] \<Rightarrow> x | c # _ \<Rightarrow> Some c) = Some (last p)" for x
    using sh by (cases p rule: rev_cases) auto
  have hp: "headOf (p @ ?b) = Some (hd p)"
    using sh by (cases p) auto
  have hb: "isWordAt (headOf ?b) = False"
    using b by (cases ?b) auto
  have "matchWordHere p (if ?a = [] then None else Some (last ?a)) (p @ ?b)"
    using a sh hb by (auto simp: matchWordHere_def wordBoundary_def revp hp)
  then show ?thesis unfolding san by (rule testWord_intro)
qed

lemma just_posted_now:
  assumes "includesStr (toLowerCase s) ''just posted now''"
  shows "includesStr (trim (toLowerCase s)) ''just posted''"
proof -
  from assms obtain a b where e0: "toLowerCase s = a @ ''just posted now'' @ b"
    by (auto simp: includesStr_sublist sublist_def)
  have e1: "a @ ''just posted now'' @ b = a @ ''just posted'' @ ('' now'' @ b)" by simp
  have "trim (a @ ''just posted'' @ ('' now'' @ b)) =
          trimStart a @ ''just posted'' @ trimEnd ('' now'' @ b)"
    by (rule trim_around) (simp_all add: isWhiteSpace_def)
  then have "trim (toLowerCase s) = trimStart a @ ''just posted'' @ trimEnd ('' now'' @ b)"
    by (simp only: e0 e1)
  then show ?thesis by (simp only: includesStr_sublist sublist_appendI)
qed

lemma iso_lowered: "isoChar c \<Longrightarrow> toLowerChar c \<in> set ''0123456789-:.+tz''"
  by (auto simp: isoChar_def lower_simps)

lemma iso_normalized:
  assumes "\<forall>c \<in> set s. isoChar c"
  shows "set (trim (toLowerCase s)) \<subseteq> set ''0123456789-:.+tz''"
proof -
  have "set (toLowerCase s) \<subseteq> set ''0123456789-:.+tz''"
    using assms iso_lowered by (auto simp: toLowerCase_def simp del: set_simps)
  then show ?thesis using set_trim[of "toLowerCase s"] by blast
qed

lemma iso_sanitized:
  assumes "\<forall>c \<in> set s. isoChar c"
  shows "set (sanitize (trim (toLowerCase s))) \<subseteq> set ''0123456789-: +tz''"
proof -
  have "set (sanitize t) \<subseteq> set ''0123456789-: +tz''" if "set t \<subseteq> set ''0123456789-:.+tz''" for t
    using that by (induction t) (auto simp: sanitize_def)
  then show ?thesis using iso_normalized[OF assms] by blast
qed

lemma iso_no_relative_word:
  assumes "\<forall>c \<in> set s. isoChar c"
  shows "\<not> list_ex (\<lambda>pattern. testWord pattern None (sanitize (trim (toLowerCase s)))) relativePatterns"
proof
  assume "list_ex (\<lambda>pattern. testWord pattern None (sanitize (trim (toLowerCase s)))) relativePatterns"
  then obtain p where p: "p \<in> set relativePatterns"
    and t: "testWord p None (sanitize (trim (toLowerCase s)))"
    by (auto simp: list_ex_iff)
  from testWord_chars[OF t] iso_sanitized[OF assms]
  have sub: "set p \<subseteq> set ''0123456789-: +tz''" by blast
  from p have "CHR ''m'' \<in> set p \<or> CHR ''h'' \<in> set p \<or> CHR ''o'' \<in> set p"
    by (auto simp: relativePatterns_def)
  then show False using sub by auto
qed

lemma iso_no_just:
  assumes "\<forall>c \<in> set s. isoChar c"
  shows "\<not> includesStr (trim (toLowerCase s)) ''just posted''"
    and "\<not> includesStr (trim (toLowerCase s)) ''just now''"
proof -
  show "\<not> includesStr (trim (toLowerCase s)) ''just posted''"
  proof
    assume "includesStr (trim (toLowerCase s)) ''just posted''"
    from includesStr_chars[OF this] iso_normalized[OF assms]
    have "set ''just posted'' \<subseteq> set ''0123456789-:.+tz''" by blast
    then show False by simp
  qed
  show "\<not> includesStr (trim (toLowerCase s)) ''just now''"
  proof
    assume "includesStr (trim (toLowerCase s)) ''just now''"
    from includesStr_chars[OF this] iso_normalized[OF assms]
    have "set ''just now'' \<subseteq> set ''0123456789-:.+tz''" by blast
    then show False by simp
  qed
qed

lemmas classify_simps = lower_simps trim_def trimStart_def trimEnd_def isWhiteSpace_def
  sanitize_def relativePatterns_def matchWordHere_def wordBoundary_def isWordChar_def

text \<open>
  C6, as the code has it.  \<open>isPostedToday\<close> is true for every string that contains
  \<open>just posted now\<close> in any letter case, and for every string in which one of the relative
  words (among them \<open>today\<close>), in any letter case, stands as a whole word: not next to a
  letter, a digit or an underscore.  It is false for \<open>2 weeks ago\<close>, \<open>yesterday\<close> and
  \<open>minuteman\<close> when the date parser rejects them.  For a string made of the characters of
  an ISO timestamp it is true exactly when the parsed instant falls on today's local
  date, whatever its time of day, so it is false for the day before.
\<close>

theorem isPostedToday_cases:
  "(includesStr (toLowerCase s) ''just posted now'' \<longrightarrow> isPostedToday pd today (Str s)) \<and>
   (p \<in> set relativePatterns \<and> toLowerCase w = p \<and>
    (pre = [] \<or> \<not> isWordChar (last pre)) \<and> (post = [] \<or> \<not> isWordChar (hd post)) \<longrightarrow>
      isPostedToday pd today (Str (pre @ w @ post))) \<and>
   (x \<in> set [''2 weeks ago'', ''yesterday'', ''minuteman''] \<and> pd x = None \<longrightarrow>
      \<not> isPostedToday pd today (Str x)) \<and>
   (t \<noteq> [] \<and> (\<forall>c \<in> set t. isoChar c) \<longrightarrow>
      isPostedToday pd today (Str t) = (pd t = Some today))"
proof (intro conjI impI)
  assume a: "includesStr (toLowerCase s) ''just posted now''"
  then have "s \<noteq> []" by (auto simp: toLowerCase_def)
  then show "isPostedToday pd today (Str s)"
    using just_posted_now[OF a] by (simp add: Let_def)
next
  assume a: "p \<in> set relativePatterns \<and> toLowerCase w = p \<and>
    (pre = [] \<or> \<not> isWordChar (last pre)) \<and> (post = [] \<or> \<not> isWordChar (hd post))"
  then have "w \<noteq> []" using patterns_shape[of p] by (auto simp: toLowerCase_def)
  moreover have "testWord p None (sanitize (trim (toLowerCase (pre @ w @ post))))"
    using a relative_word_matches[of p w pre post] by blast
  then have "list_ex (\<lambda>pattern. testWord pattern None (sanitize (trim (toLowerCase (pre @ w @ post)))))
               relativePatterns"
    using a by (auto simp: list_ex_iff)
  ultimately show "isPostedToday pd today (Str (pre @ w @ post))"
    by (simp add: Let_def)
next
  assume "x \<in> set [''2 weeks ago'', ''yesterday'', ''minuteman''] \<and> pd x = None"
  then show "\<not> isPostedToday pd today (Str x)"
    by (auto simp: classify_simps)
next
  assume a: "t \<noteq> [] \<and> (\<forall>c \<in> set t. isoChar c)"
  then have iso: "\<forall>c \<in> set t. isoChar c" by simp
  have "isPostedToday pd today (Str t) =
          (case pd t of Some parsedDate \<Rightarrow>
                     getFullYear parsedDate = getFullYear today \<and>
                     getMonth parsedDate = getMonth today \<and>
                     getDate parsedDate = getDate today
                 | None \<Rightarrow> False)"
    using a iso_no_just[OF iso] iso_no_relative_word[OF iso] by (simp add: Let_def)
  also have "\<dots> = (pd t = Some today)"
    by (auto split: option.splits simp: ymd.expand)
  finally show "isPostedToday pd today (Str t) = (pd t = Some today)" .
qed

theorem isPostedToday_cases_witness:
  "isPostedToday sampleParse (YMD 2025 0 15) (Str ''Just Posted Now'') \<and>
   isPostedToday sampleParse (YMD 2025 0 15) (Str ''Today.'') \<and>
   \<not> isPostedToday sampleParse (YMD 2025 0 15) (Str ''yesterday'') \<and>
   isPostedToday sampleParse (YMD 2025 0 15) (Str ''2025-01-15T08:30:00Z'') \<and>
   \<not> isPostedToday sampleParse (YMD 2025 0 15) (Str ''2025-01-14T23:59:59Z'')"
proof -
  have h1: "includesStr (toLowerCase ''Just Posted Now'') ''just posted now''"
    by (simp add: lower_simps)
  have h2: "''today'' \<in> set relativePatterns \<and> toLowerCase ''Today'' = ''today'' \<and>
    ([] = [] \<or> \<not> isWordChar (last [])) \<and> (''.'' = [] \<or> \<not> isWordChar (hd ''.''))"
    by (simp add: relativePatterns_def lower_simps isWordChar_def)
  have h3: "''yesterday'' \<in> set [''2 weeks ago'', ''yesterday'', ''minuteman''] \<and>
            sampleParse ''yesterday'' = None"
    by (simp add: sampleParse_def)
  have h4: "''2025-01-15T08:30:00Z'' \<noteq> [] \<and> (\<forall>c \<in> set ''2025-01-15T08:30:00Z''. isoChar c)"
    by (simp add: isoChar_def)
  have h5: "''2025-01-14T23:59:59Z'' \<noteq> [] \<and> (\<forall>c \<in> set ''2025-01-14T23:59:59Z''. isoChar c)"
    by (simp add: isoChar_def)
  note a = isPostedToday_cases[where s = "''Just Posted Now''" and p = "''today''" and
      w = "''Today''" and pre = "[]" and post = "''.''" and x = "''yesterday''" and
      t = "''2025-01-15T08:30:00Z''" and pd = sampleParse and today = "YMD 2025 0 15"]
  note b = isPostedToday_cases[where t = "''2025-01-14T23:59:59Z''" and pd = sampleParse and
      today = "YMD 2025 0 15"]
  have "isPostedToday sampleParse (YMD 2025 0 15) (Str ''Just Posted Now'')"
    using a h1 by blast
  moreover have "isPostedToday sampleParse (YMD 2025 0 15) (Str ([] @ ''Today'' @ ''.''))"
    using a h2 by blast
  moreover have "\<not> isPostedToday sampleParse (YMD 2025 0 15) (Str ''yesterday'')"
    using a h3 by blast
  moreover have "isPostedToday sampleParse (YMD 2025 0 15) (Str ''2025-01-15T08:30:00Z'') =
                   (sampleParse ''2025-01-15T08:30:00Z'' = Some (YMD 2025 0 15))"
    using a h4 by blast
  moreover have "isPostedToday sampleParse (YMD 2025 0 15) (Str ''2025-01-14T23:59:59Z'') =
                   (sampleParse ''2025-01-14T23:59:59Z'' = Some (YMD 2025 0 15))"
    using b h5 by blast
  ultimately show ?thesis by (simp add: sampleParse_def)
qed

text \<open>A string that contains \<open>today\<close>, not as a whole word, and that is no date.\<close>

theorem isPostedToday_cases_counterexample:
  "includesStr (toLowerCase ''todays'') ''today'' \<and>
   \<not> isPostedToday invalidDate (YMD 2025 0 15) (Str ''todays'')"
  by (simp add: classify_simps invalidDate_def)

end
